theory Spec2Isabelle
  imports Complex_Main "HOL-Library.AList"
begin

section \<open>Numbers, time and randomness\<close>

text \<open>
  The server computes with JavaScript numbers. They are embedded as \<^typ>\<open>real\<close>:
  addition, multiplication and division are exact, and the only rounding is the one the
  source writes out, \<^verbatim>\<open>parseFloat(x.toFixed(2))\<close>. \<^verbatim>\<open>toFixed(2)\<close> takes the
  sign off, picks the integer \<open>n\<close> with \<open>n / 100\<close> closest to the magnitude (the larger
  one on a tie) and puts the sign back. From \<open>10^21\<close> on it prints the number itself;
  a JavaScript number of that size is an integer, which the rounding leaves as it is.
  NaN and the infinities are not values of the embedding.
\<close>

definition toFixed2 :: "real \<Rightarrow> real" where
  "toFixed2 x =
     (if x < 0 then - (of_int \<lfloor>- x * 100 + 1 / 2\<rfloor> / 100)
      else of_int \<lfloor>x * 100 + 1 / 2\<rfloor> / 100)"

definition Math_floor :: "real \<Rightarrow> real" where
  "Math_floor x = of_int \<lfloor>x\<rfloor>"

text \<open>\<^verbatim>\<open>a || b\<close> on numbers: \<open>0\<close> is the falsy number.\<close>

definition js_or :: "real \<Rightarrow> real \<Rightarrow> real" where
  "js_or a b = (if a = 0 then b else a)"

text \<open>
  \<^verbatim>\<open>Math.random()\<close> is a stream of draws read through a counter: a function takes
  the stream and the index of the next draw and returns the index it stopped at. Every
  draw lies in \<open>[0, 1)\<close>.
\<close>

type_synonym rng = "nat \<Rightarrow> real"

definition rng_ok :: "rng \<Rightarrow> bool" where
  "rng_ok rnd \<longleftrightarrow> (\<forall>n. 0 \<le> rnd n \<and> rnd n < 1)"

text \<open>
  A \<^verbatim>\<open>Date\<close> is its time value, the milliseconds since the epoch. The UTC getters
  are the floor divisions of the language standard; 1970-01-01 was a Thursday (day 4).
  The calendar date \<^verbatim>\<open>toISOString().split('T')[0]\<close> is represented by the number of
  the UTC day since the epoch, which the \<^verbatim>\<open>YYYY-MM-DD\<close> text determines and is
  determined by. The local time zone of the process is a fixed offset \<open>tz\<close> from UTC, in
  minutes.
\<close>

definition msPerDay :: int where
  "msPerDay = 24 * 60 * 60 * 1000"

definition getUTCHours :: "int \<Rightarrow> int" where
  "getUTCHours t = (t div 3600000) mod 24"

definition getUTCMinutes :: "int \<Rightarrow> int" where
  "getUTCMinutes t = (t div 60000) mod 60"

definition getUTCDay :: "int \<Rightarrow> int" where
  "getUTCDay t = (t div msPerDay + 4) mod 7"

definition getDay :: "int \<Rightarrow> int \<Rightarrow> int" where
  "getDay tz t = getUTCDay (t + tz * 60000)"

definition isoDate :: "int \<Rightarrow> int" where
  "isoDate t = t div msPerDay"

text \<open>The day of the week of a calendar date, from its day number.\<close>

definition weekdayOfDate :: "int \<Rightarrow> int" where
  "weekdayOfDate d = (d + 4) mod 7"

section \<open>Settings and the market clock\<close>

record simulation_settings =
  isActive :: bool
  speed :: real
  volatilityMultiplier :: real
  updateInterval :: real
  alwaysOpen :: bool
  priceTickSize :: real
  maxTickMultiplier :: real

definition defaultSettings :: simulation_settings where
  "defaultSettings =
     \<lparr>isActive = True, speed = 1, volatilityMultiplier = 1, updateInterval = 2000,
      alwaysOpen = True, priceTickSize = 5 / 100, maxTickMultiplier = 5\<rparr>"

text \<open>Of the status object the flag and the reason are kept; the rest is display text.\<close>

record market_status =
  isOpen :: bool
  reason :: string

definition isMarketOpen :: "simulation_settings \<Rightarrow> int \<Rightarrow> market_status" where
  "isMarketOpen st now =
     (if alwaysOpen st then \<lparr>isOpen = True, reason = ''Simulation Mode - Always Open''\<rparr>
      else
        let istOffset = 330;
            utcMinutes = getUTCHours now * 60 + getUTCMinutes now;
            istMinutes = utcMinutes + istOffset;
            istHour = (istMinutes div 60) mod 24;
            istMinute = istMinutes mod 60;
            istDay = (if istMinutes \<ge> 24 * 60 then (getUTCDay now + 1) mod 7 else getUTCDay now)
        in if istDay = 0 \<or> istDay = 6
           then \<lparr>isOpen = False, reason = ''Weekend - Market Closed''\<rparr>
           else
             let marketOpenMinutes = 9 * 60 + 15;
                 marketCloseMinutes = 15 * 60 + 30;
                 currentISTMinutes = istHour * 60 + istMinute;
                 preMarketOpen = 9 * 60;
                 postMarketClose = 16 * 60
             in if currentISTMinutes < preMarketOpen
                then \<lparr>isOpen = False, reason = ''Pre-Market - Opening at 9:15 AM IST''\<rparr>
                else if currentISTMinutes \<ge> preMarketOpen \<and> currentISTMinutes < marketOpenMinutes
                then \<lparr>isOpen = False, reason = ''Pre-Market Session''\<rparr>
                else if currentISTMinutes \<ge> marketOpenMinutes \<and> currentISTMinutes < marketCloseMinutes
                then \<lparr>isOpen = True, reason = ''Market Open''\<rparr>
                else if currentISTMinutes \<ge> marketCloseMinutes \<and> currentISTMinutes < postMarketClose
                then \<lparr>isOpen = False, reason = ''Post-Market Session''\<rparr>
                else \<lparr>isOpen = False, reason = ''Market Closed''\<rparr>)"

text \<open>
  The day of the week in India Standard Time, read off the clock directly: the instant
  shifted by five and a half hours.
\<close>

definition istWeekday :: "int \<Rightarrow> int" where
  "istWeekday now = ((now + 19800000) div msPerDay + 4) mod 7"

section \<open>Catalog and volatility\<close>

text \<open>
  \<^verbatim>\<open>INDIAN_STOCKS\<close> and \<^verbatim>\<open>INDICES\<close> are object literals: keys in insertion order
  with one value each, here association lists. An index entry has no \<^verbatim>\<open>sector\<close>.
  The functions take the two tables as arguments.
\<close>

type_synonym symbol = string

record stock_entry =
  e_name :: string
  e_sector :: "string option"
  basePrice :: real

type_synonym catalog = "(symbol \<times> stock_entry) list"

text \<open>
  The object that a literal or a spread builds from entries written in order: a key
  written again keeps its first place and takes the last value.
\<close>

definition objectLiteral :: "(string \<times> 'v) list \<Rightarrow> (string \<times> 'v) list" where
  "objectLiteral entries = fold (\<lambda>kv. AList.update (fst kv) (snd kv)) entries []"

definition sectorVolatility :: "(string \<times> real) list" where
  "sectorVolatility =
     [(''IT'', 25 / 1000), (''Banking'', 2 / 100), (''Pharma'', 22 / 1000),
      (''Automobile'', 23 / 1000), (''Oil & Gas'', 25 / 1000), (''FMCG'', 15 / 1000),
      (''Steel'', 3 / 100), (''Finance'', 28 / 1000), (''Telecom'', 18 / 1000),
      (''Power'', 16 / 1000), (''Cement'', 2 / 100), (''Construction'', 22 / 1000),
      (''Conglomerate'', 35 / 1000), (''Infrastructure'', 25 / 1000),
      (''Food Tech'', 4 / 100), (''Fintech'', 45 / 1000), (''E-Commerce'', 4 / 100),
      (''Retail'', 25 / 1000), (''Consumer Goods'', 18 / 1000), (''Paints'', 17 / 1000)]"

text \<open>
  \<^verbatim>\<open>sectorVolatility[stock.sector] || 0.02\<close>, with the lookup on the table's own
  keys: the sectors come from the catalog, and no sector of the source's catalog names a
  property the table inherits (\<open>stocks_sectors_own\<close> below). A symbol that names an
  inherited property of \<^verbatim>\<open>INDIAN_STOCKS\<close> finds an object without a sector, and
  gets the default as a missing symbol does.
\<close>

definition getVolatility :: "catalog \<Rightarrow> symbol \<Rightarrow> real" where
  "getVolatility stocks symb =
     (case map_of stocks symb of
        None \<Rightarrow> 2 / 100
      | Some stock \<Rightarrow>
          (case e_sector stock of
             None \<Rightarrow> 2 / 100
           | Some s \<Rightarrow> (case map_of sectorVolatility s of
                         None \<Rightarrow> 2 / 100
                       | Some v \<Rightarrow> js_or v (2 / 100))))"

section \<open>The catalog of the source\<close>

text \<open>
  The two tables of the source, entry by entry in the order they are written.
  \<^verbatim>\<open>INDIAN_STOCKS\<close> writes \<^verbatim>\<open>TITAN.NS\<close> and \<^verbatim>\<open>TATACONSUM.NS\<close> twice.
\<close>

definition stockEntry :: "string \<Rightarrow> string \<Rightarrow> real \<Rightarrow> stock_entry" where
  "stockEntry n s p = \<lparr>e_name = n, e_sector = Some s, basePrice = p\<rparr>"

definition indexEntry :: "string \<Rightarrow> real \<Rightarrow> stock_entry" where
  "indexEntry n p = \<lparr>e_name = n, e_sector = None, basePrice = p\<rparr>"

definition INDIAN_STOCKS_entries :: catalog where
  "INDIAN_STOCKS_entries =
     [(''RELIANCE.NS'', stockEntry ''Reliance Industries'' ''Oil & Gas'' 1397),
      (''TCS.NS'', stockEntry ''Tata Consultancy Services'' ''IT'' 3129),
      (''HDFCBANK.NS'', stockEntry ''HDFC Bank'' ''Banking'' 929),
      (''INFY.NS'', stockEntry ''Infosys'' ''IT'' 1463),
      (''ICICIBANK.NS'', stockEntry ''ICICI Bank'' ''Banking'' 1044),
      (''HINDUNILVR.NS'', stockEntry ''Hindustan Unilever'' ''FMCG'' 2285),
      (''SBIN.NS'', stockEntry ''State Bank of India'' ''Banking'' 768),
      (''BHARTIARTL.NS'', stockEntry ''Bharti Airtel'' ''Telecom'' 1969),
      (''KOTAKBANK.NS'', stockEntry ''Kotak Mahindra Bank'' ''Banking'' 1785),
      (''ITC.NS'', stockEntry ''ITC Ltd'' ''FMCG'' 438),
      (''LT.NS'', stockEntry ''Larsen & Toubro'' ''Construction'' 3580),
      (''AXISBANK.NS'', stockEntry ''Axis Bank'' ''Banking'' 1028),
      (''ASIANPAINT.NS'', stockEntry ''Asian Paints'' ''Paints'' 2320),
      (''MARUTI.NS'', stockEntry ''Maruti Suzuki'' ''Automobile'' 12150),
      (''BAJFINANCE.NS'', stockEntry ''Bajaj Finance'' ''Finance'' 931),
      (''TITAN.NS'', stockEntry ''Titan Company'' ''Consumer Goods'' 3285),
      (''SUNPHARMA.NS'', stockEntry ''Sun Pharma'' ''Pharma'' 1785),
      (''TATAMOTORS.NS'', stockEntry ''Tata Motors'' ''Automobile'' 725),
      (''WIPRO.NS'', stockEntry ''Wipro'' ''IT'' 295),
      (''HCLTECH.NS'', stockEntry ''HCL Technologies'' ''IT'' 1780),
      (''ULTRACEMCO.NS'', stockEntry ''UltraTech Cement'' ''Cement'' 11250),
      (''NESTLEIND.NS'', stockEntry ''Nestle India'' ''FMCG'' 2185),
      (''POWERGRID.NS'', stockEntry ''Power Grid Corp'' ''Power'' 295),
      (''NTPC.NS'', stockEntry ''NTPC Ltd'' ''Power'' 335),
      (''TATASTEEL.NS'', stockEntry ''Tata Steel'' ''Steel'' 135),
      (''JSWSTEEL.NS'', stockEntry ''JSW Steel'' ''Steel'' 945),
      (''TECHM.NS'', stockEntry ''Tech Mahindra'' ''IT'' 1680),
      (''ADANIENT.NS'', stockEntry ''Adani Enterprises'' ''Conglomerate'' 2385),
      (''ADANIPORTS.NS'', stockEntry ''Adani Ports'' ''Infrastructure'' 1185),
      (''ONGC.NS'', stockEntry ''ONGC'' ''Oil & Gas'' 265),
      (''BAJAJ-AUTO.NS'', stockEntry ''Bajaj Auto'' ''Automobile'' 8950),
      (''HEROMOTOCO.NS'', stockEntry ''Hero MotoCorp'' ''Automobile'' 4285),
      (''EICHERMOT.NS'', stockEntry ''Eicher Motors'' ''Automobile'' 5120),
      (''DRREDDY.NS'', stockEntry ''Dr. Reddys Labs'' ''Pharma'' 1285),
      (''CIPLA.NS'', stockEntry ''Cipla'' ''Pharma'' 1485),
      (''DIVISLAB.NS'', stockEntry ''Divis Labs'' ''Pharma'' 5985),
      (''BPCL.NS'', stockEntry ''Bharat Petroleum'' ''Oil & Gas'' 285),
      (''GRASIM.NS'', stockEntry ''Grasim Industries'' ''Cement'' 2685),
      (''BRITANNIA.NS'', stockEntry ''Britannia Industries'' ''FMCG'' 4985),
      (''COALINDIA.NS'', stockEntry ''Coal India'' ''Mining'' 385),
      (''HINDALCO.NS'', stockEntry ''Hindalco Industries'' ''Metals'' 595),
      (''APOLLOHOSP.NS'', stockEntry ''Apollo Hospitals'' ''Healthcare'' 7185),
      (''SBILIFE.NS'', stockEntry ''SBI Life Insurance'' ''Insurance'' 1485),
      (''HDFCLIFE.NS'', stockEntry ''HDFC Life Insurance'' ''Insurance'' 645),
      (''BAJAJFINSV.NS'', stockEntry ''Bajaj Finserv'' ''Finance'' 1785),
      (''M&M.NS'', stockEntry ''Mahindra & Mahindra'' ''Automobile'' 2985),
      (''INDUSINDBK.NS'', stockEntry ''IndusInd Bank'' ''Banking'' 985),
      (''TATACONSUM.NS'', stockEntry ''Tata Consumer Products'' ''FMCG'' 985),
      (''ADANIGREEN.NS'', stockEntry ''Adani Green Energy'' ''Power'' 1085),
      (''SIEMENS.NS'', stockEntry ''Siemens India'' ''Capital Goods'' 4850),
      (''HAVELLS.NS'', stockEntry ''Havells India'' ''Consumer Durables'' 1380),
      (''PIDILITIND.NS'', stockEntry ''Pidilite Industries'' ''Chemicals'' 2650),
      (''GODREJCP.NS'', stockEntry ''Godrej Consumer Products'' ''FMCG'' 1180),
      (''DABUR.NS'', stockEntry ''Dabur India'' ''FMCG'' 545),
      (''MARICO.NS'', stockEntry ''Marico'' ''FMCG'' 585),
      (''BERGEPAINT.NS'', stockEntry ''Berger Paints'' ''Paints'' 545),
      (''DLF.NS'', stockEntry ''DLF Ltd'' ''Real Estate'' 785),
      (''INDIGO.NS'', stockEntry ''InterGlobe Aviation'' ''Aviation'' 3250),
      (''SHREECEM.NS'', stockEntry ''Shree Cement'' ''Cement'' 24500),
      (''AMBUJACEM.NS'', stockEntry ''Ambuja Cements'' ''Cement'' 585),
      (''ACC.NS'', stockEntry ''ACC Ltd'' ''Cement'' 2180),
      (''BANKBARODA.NS'', stockEntry ''Bank of Baroda'' ''Banking'' 245),
      (''PNB.NS'', stockEntry ''Punjab National Bank'' ''Banking'' 95),
      (''CANBK.NS'', stockEntry ''Canara Bank'' ''Banking'' 485),
      (''UNIONBANK.NS'', stockEntry ''Union Bank of India'' ''Banking'' 125),
      (''IDFCFIRSTB.NS'', stockEntry ''IDFC First Bank'' ''Banking'' 78),
      (''FEDERALBNK.NS'', stockEntry ''Federal Bank'' ''Banking'' 148),
      (''BANDHANBNK.NS'', stockEntry ''Bandhan Bank'' ''Banking'' 215),
      (''RBLBANK.NS'', stockEntry ''RBL Bank'' ''Banking'' 185),
      (''YESBANK.NS'', stockEntry ''Yes Bank'' ''Banking'' 22),
      (''AUBANK.NS'', stockEntry ''AU Small Finance Bank'' ''Banking'' 685),
      (''ICICIPRULI.NS'', stockEntry ''ICICI Prudential Life'' ''Insurance'' 545),
      (''ICICIGI.NS'', stockEntry ''ICICI Lombard'' ''Insurance'' 1380),
      (''NAUKRI.NS'', stockEntry ''Info Edge India'' ''Internet'' 4850),
      (''ZOMATO.NS'', stockEntry ''Zomato'' ''Food Tech'' 185),
      (''PAYTM.NS'', stockEntry ''Paytm (One97)'' ''Fintech'' 485),
      (''NYKAA.NS'', stockEntry ''Nykaa (FSN E-Commerce)'' ''E-Commerce'' 168),
      (''DMART.NS'', stockEntry ''Avenue Supermarts (DMart)'' ''Retail'' 3850),
      (''POLICYBZR.NS'', stockEntry ''PB Fintech (Policybazaar)'' ''Fintech'' 485),
      (''LTIM.NS'', stockEntry ''LTIMindtree'' ''IT'' 5250),
      (''MPHASIS.NS'', stockEntry ''Mphasis'' ''IT'' 2380),
      (''COFORGE.NS'', stockEntry ''Coforge'' ''IT'' 5850),
      (''PERSISTENT.NS'', stockEntry ''Persistent Systems'' ''IT'' 4250),
      (''LTTS.NS'', stockEntry ''L&T Technology Services'' ''IT'' 4650),
      (''TATAELXSI.NS'', stockEntry ''Tata Elxsi'' ''IT'' 6850),
      (''MINDTREE.NS'', stockEntry ''Mindtree'' ''IT'' 4180),
      (''CYIENT.NS'', stockEntry ''Cyient'' ''IT'' 1850),
      (''HAPPSTMNDS.NS'', stockEntry ''Happiest Minds'' ''IT'' 785),
      (''SONATSOFTW.NS'', stockEntry ''Sonata Software'' ''IT'' 585),
      (''ROUTE.NS'', stockEntry ''Route Mobile'' ''IT'' 1650),
      (''MASTEK.NS'', stockEntry ''Mastek'' ''IT'' 2450),
      (''BIRLASOFT.NS'', stockEntry ''Birlasoft'' ''IT'' 585),
      (''KPITTECH.NS'', stockEntry ''KPIT Technologies'' ''IT'' 1280),
      (''ZENSAR.NS'', stockEntry ''Zensar Technologies'' ''IT'' 485),
      (''NIITLTD.NS'', stockEntry ''NIIT Ltd'' ''IT'' 385),
      (''HEXAWARE.NS'', stockEntry ''Hexaware Technologies'' ''IT'' 685),
      (''LUPIN.NS'', stockEntry ''Lupin'' ''Pharma'' 1285),
      (''AUROPHARMA.NS'', stockEntry ''Aurobindo Pharma'' ''Pharma'' 985),
      (''BIOCON.NS'', stockEntry ''Biocon'' ''Pharma'' 285),
      (''TORNTPHARM.NS'', stockEntry ''Torrent Pharma'' ''Pharma'' 2250),
      (''ALKEM.NS'', stockEntry ''Alkem Labs'' ''Pharma'' 4850),
      (''ZYDUSLIFE.NS'', stockEntry ''Zydus Lifesciences'' ''Pharma'' 685),
      (''IPCALAB.NS'', stockEntry ''IPCA Labs'' ''Pharma'' 1085),
      (''LAURUSLABS.NS'', stockEntry ''Laurus Labs'' ''Pharma'' 385),
      (''GLENMARK.NS'', stockEntry ''Glenmark Pharma'' ''Pharma'' 985),
      (''NATCOPHARM.NS'', stockEntry ''Natco Pharma'' ''Pharma'' 785),
      (''ABBOTINDIA.NS'', stockEntry ''Abbott India'' ''Pharma'' 24500),
      (''GLAXO.NS'', stockEntry ''GlaxoSmithKline Pharma'' ''Pharma'' 1650),
      (''PFIZER.NS'', stockEntry ''Pfizer India'' ''Pharma'' 4250),
      (''SANOFI.NS'', stockEntry ''Sanofi India'' ''Pharma'' 6850),
      (''MAXHEALTH.NS'', stockEntry ''Max Healthcare'' ''Healthcare'' 685),
      (''FORTIS.NS'', stockEntry ''Fortis Healthcare'' ''Healthcare'' 385),
      (''METROPOLIS.NS'', stockEntry ''Metropolis Healthcare'' ''Healthcare'' 1650),
      (''LALPATHLAB.NS'', stockEntry ''Dr Lal PathLabs'' ''Healthcare'' 2250),
      (''THYROCARE.NS'', stockEntry ''Thyrocare Technologies'' ''Healthcare'' 585),
      (''ASHOKLEY.NS'', stockEntry ''Ashok Leyland'' ''Automobile'' 185),
      (''TVSMOTOR.NS'', stockEntry ''TVS Motor'' ''Automobile'' 1850),
      (''ESCORTS.NS'', stockEntry ''Escorts Kubota'' ''Automobile'' 2850),
      (''MOTHERSON.NS'', stockEntry ''Motherson Sumi'' ''Auto Ancillary'' 125),
      (''BOSCHLTD.NS'', stockEntry ''Bosch'' ''Auto Ancillary'' 18500),
      (''MRF.NS'', stockEntry ''MRF Ltd'' ''Tyres'' 125000),
      (''APOLLOTYRE.NS'', stockEntry ''Apollo Tyres'' ''Tyres'' 385),
      (''BALKRISIND.NS'', stockEntry ''Balkrishna Industries'' ''Tyres'' 2450),
      (''CEAT.NS'', stockEntry ''CEAT Ltd'' ''Tyres'' 2180),
      (''EXIDEIND.NS'', stockEntry ''Exide Industries'' ''Auto Ancillary'' 285),
      (''AMARAJABAT.NS'', stockEntry ''Amara Raja Batteries'' ''Auto Ancillary'' 685),
      (''BHARATFORG.NS'', stockEntry ''Bharat Forge'' ''Auto Ancillary'' 1180),
      (''SUNDRMFAST.NS'', stockEntry ''Sundram Fasteners'' ''Auto Ancillary'' 985),
      (''ENDURANCE.NS'', stockEntry ''Endurance Technologies'' ''Auto Ancillary'' 1650),
      (''SONACOMS.NS'', stockEntry ''Sona BLW Precision'' ''Auto Ancillary'' 585),
      (''COLPAL.NS'', stockEntry ''Colgate Palmolive'' ''FMCG'' 2450),
      (''EMAMILTD.NS'', stockEntry ''Emami'' ''FMCG'' 485),
      (''TATACONSUM.NS'', stockEntry ''Tata Consumer'' ''FMCG'' 1085),
      (''VBL.NS'', stockEntry ''Varun Beverages'' ''FMCG'' 1450),
      (''UBL.NS'', stockEntry ''United Breweries'' ''FMCG'' 1650),
      (''MCDOWELL-N.NS'', stockEntry ''United Spirits'' ''FMCG'' 1180),
      (''RADICO.NS'', stockEntry ''Radico Khaitan'' ''FMCG'' 1285),
      (''JYOTHYLAB.NS'', stockEntry ''Jyothy Labs'' ''FMCG'' 385),
      (''BAJAJCON.NS'', stockEntry ''Bajaj Consumer Care'' ''FMCG'' 185),
      (''ZYDUSWELL.NS'', stockEntry ''Zydus Wellness'' ''FMCG'' 1650),
      (''TATAPOWER.NS'', stockEntry ''Tata Power'' ''Power'' 285),
      (''ADANIPOWER.NS'', stockEntry ''Adani Power'' ''Power'' 385),
      (''NHPC.NS'', stockEntry ''NHPC'' ''Power'' 65),
      (''SJVN.NS'', stockEntry ''SJVN Ltd'' ''Power'' 85),
      (''JSWENERGY.NS'', stockEntry ''JSW Energy'' ''Power'' 485),
      (''TORNTPOWER.NS'', stockEntry ''Torrent Power'' ''Power'' 585),
      (''CESC.NS'', stockEntry ''CESC Ltd'' ''Power'' 115),
      (''IEX.NS'', stockEntry ''Indian Energy Exchange'' ''Power'' 145),
      (''GAIL.NS'', stockEntry ''GAIL India'' ''Oil & Gas'' 145),
      (''IOC.NS'', stockEntry ''Indian Oil Corp'' ''Oil & Gas'' 145),
      (''HINDPETRO.NS'', stockEntry ''HPCL'' ''Oil & Gas'' 385),
      (''PETRONET.NS'', stockEntry ''Petronet LNG'' ''Oil & Gas'' 285),
      (''MGL.NS'', stockEntry ''Mahanagar Gas'' ''Oil & Gas'' 1180),
      (''IGL.NS'', stockEntry ''Indraprastha Gas'' ''Oil & Gas'' 485),
      (''GSPL.NS'', stockEntry ''Gujarat State Petronet'' ''Oil & Gas'' 285),
      (''ATGL.NS'', stockEntry ''Adani Total Gas'' ''Oil & Gas'' 685),
      (''VEDL.NS'', stockEntry ''Vedanta'' ''Metals'' 285),
      (''NMDC.NS'', stockEntry ''NMDC'' ''Mining'' 185),
      (''SAIL.NS'', stockEntry ''SAIL'' ''Steel'' 115),
      (''JINDALSTEL.NS'', stockEntry ''Jindal Steel & Power'' ''Steel'' 685),
      (''NATIONALUM.NS'', stockEntry ''National Aluminium'' ''Metals'' 115),
      (''MOIL.NS'', stockEntry ''MOIL Ltd'' ''Mining'' 285),
      (''WELCORP.NS'', stockEntry ''Welspun Corp'' ''Steel'' 485),
      (''RATNAMANI.NS'', stockEntry ''Ratnamani Metals'' ''Steel'' 2850),
      (''APLAPOLLO.NS'', stockEntry ''APL Apollo Tubes'' ''Steel'' 1450),
      (''ABB.NS'', stockEntry ''ABB India'' ''Capital Goods'' 4850),
      (''BHEL.NS'', stockEntry ''BHEL'' ''Capital Goods'' 185),
      (''CUMMINSIND.NS'', stockEntry ''Cummins India'' ''Capital Goods'' 2250),
      (''THERMAX.NS'', stockEntry ''Thermax'' ''Capital Goods'' 2850),
      (''GRINDWELL.NS'', stockEntry ''Grindwell Norton'' ''Capital Goods'' 1850),
      (''AIAENG.NS'', stockEntry ''AIA Engineering'' ''Capital Goods'' 3250),
      (''KEC.NS'', stockEntry ''KEC International'' ''Infrastructure'' 685),
      (''KALPATPOWR.NS'', stockEntry ''Kalpataru Projects'' ''Infrastructure'' 585),
      (''IRB.NS'', stockEntry ''IRB Infra'' ''Infrastructure'' 48),
      (''PNCINFRA.NS'', stockEntry ''PNC Infratech'' ''Infrastructure'' 385),
      (''NCC.NS'', stockEntry ''NCC Ltd'' ''Construction'' 185),
      (''HCC.NS'', stockEntry ''HCC'' ''Construction'' 28),
      (''NBCC.NS'', stockEntry ''NBCC India'' ''Construction'' 85),
      (''GODREJPROP.NS'', stockEntry ''Godrej Properties'' ''Real Estate'' 2250),
      (''OBEROIRLTY.NS'', stockEntry ''Oberoi Realty'' ''Real Estate'' 1450),
      (''PRESTIGE.NS'', stockEntry ''Prestige Estates'' ''Real Estate'' 785),
      (''BRIGADE.NS'', stockEntry ''Brigade Enterprises'' ''Real Estate'' 685),
      (''SOBHA.NS'', stockEntry ''Sobha Ltd'' ''Real Estate'' 785),
      (''PHOENIXLTD.NS'', stockEntry ''Phoenix Mills'' ''Real Estate'' 1650),
      (''LODHA.NS'', stockEntry ''Macrotech Developers'' ''Real Estate'' 1085),
      (''SUNTECK.NS'', stockEntry ''Sunteck Realty'' ''Real Estate'' 485),
      (''VOLTAS.NS'', stockEntry ''Voltas'' ''Consumer Durables'' 1085),
      (''BLUESTARCO.NS'', stockEntry ''Blue Star'' ''Consumer Durables'' 1285),
      (''WHIRLPOOL.NS'', stockEntry ''Whirlpool India'' ''Consumer Durables'' 1450),
      (''CROMPTON.NS'', stockEntry ''Crompton Greaves CE'' ''Consumer Durables'' 385),
      (''VGUARD.NS'', stockEntry ''V-Guard Industries'' ''Consumer Durables'' 385),
      (''SYMPHONY.NS'', stockEntry ''Symphony'' ''Consumer Durables'' 1085),
      (''RAJESHEXPO.NS'', stockEntry ''Rajesh Exports'' ''Consumer Goods'' 485),
      (''KALYAN.NS'', stockEntry ''Kalyan Jewellers'' ''Consumer Goods'' 385),
      (''BATAINDIA.NS'', stockEntry ''Bata India'' ''Consumer Goods'' 1450),
      (''RELAXO.NS'', stockEntry ''Relaxo Footwears'' ''Consumer Goods'' 785),
      (''PAGEIND.NS'', stockEntry ''Page Industries'' ''Consumer Goods'' 38500),
      (''TRENT.NS'', stockEntry ''Trent Ltd'' ''Retail'' 3850),
      (''SHOPERSTOP.NS'', stockEntry ''Shoppers Stop'' ''Retail'' 785),
      (''SRF.NS'', stockEntry ''SRF Ltd'' ''Chemicals'' 2450),
      (''ATUL.NS'', stockEntry ''Atul Ltd'' ''Chemicals'' 6850),
      (''DEEPAKNI.NS'', stockEntry ''Deepak Nitrite'' ''Chemicals'' 2180),
      (''NAVINFLUOR.NS'', stockEntry ''Navin Fluorine'' ''Chemicals'' 3850),
      (''CLEAN.NS'', stockEntry ''Clean Science'' ''Chemicals'' 1450),
      (''FINEORG.NS'', stockEntry ''Fine Organic'' ''Chemicals'' 4850),
      (''ALKYLAMINE.NS'', stockEntry ''Alkyl Amines'' ''Chemicals'' 2250),
      (''AARTIIND.NS'', stockEntry ''Aarti Industries'' ''Chemicals'' 585),
      (''GALAXYSURF.NS'', stockEntry ''Galaxy Surfactants'' ''Chemicals'' 2850),
      (''SUDARSCHEM.NS'', stockEntry ''Sudarshan Chemicals'' ''Chemicals'' 485),
      (''RAYMOND.NS'', stockEntry ''Raymond'' ''Textiles'' 1650),
      (''ARVIND.NS'', stockEntry ''Arvind Ltd'' ''Textiles'' 385),
      (''WELSPUNIND.NS'', stockEntry ''Welspun India'' ''Textiles'' 145),
      (''TRIDENT.NS'', stockEntry ''Trident Ltd'' ''Textiles'' 35),
      (''KPR.NS'', stockEntry ''KPR Mill'' ''Textiles'' 785),
      (''GOKALDAS.NS'', stockEntry ''Gokaldas Exports'' ''Textiles'' 785),
      (''PVRINOX.NS'', stockEntry ''PVR INOX'' ''Media'' 1450),
      (''ZEEL.NS'', stockEntry ''Zee Entertainment'' ''Media'' 185),
      (''SUNTV.NS'', stockEntry ''Sun TV Network'' ''Media'' 585),
      (''NETWORK18.NS'', stockEntry ''Network18'' ''Media'' 85),
      (''TV18BRDCST.NS'', stockEntry ''TV18 Broadcast'' ''Media'' 45),
      (''IDEA.NS'', stockEntry ''Vodafone Idea'' ''Telecom'' 12),
      (''TATACOMM.NS'', stockEntry ''Tata Communications'' ''Telecom'' 1850),
      (''INDUSTOWER.NS'', stockEntry ''Indus Towers'' ''Telecom'' 285),
      (''DELHIVERY.NS'', stockEntry ''Delhivery'' ''Logistics'' 385),
      (''BLUEDART.NS'', stockEntry ''Blue Dart Express'' ''Logistics'' 6850),
      (''CONCOR.NS'', stockEntry ''Container Corp'' ''Logistics'' 685),
      (''VRL.NS'', stockEntry ''VRL Logistics'' ''Logistics'' 585),
      (''MAHLOG.NS'', stockEntry ''Mahindra Logistics'' ''Logistics'' 385),
      (''GATEWAY.NS'', stockEntry ''Gateway Distriparks'' ''Logistics'' 85),
      (''ALLCARGO.NS'', stockEntry ''Allcargo Logistics'' ''Logistics'' 385),
      (''BAJAJHLDNG.NS'', stockEntry ''Bajaj Holdings'' ''Finance'' 7850),
      (''CHOLAFIN.NS'', stockEntry ''Cholamandalam Finance'' ''Finance'' 1180),
      (''MUTHOOTFIN.NS'', stockEntry ''Muthoot Finance'' ''Finance'' 1450),
      (''MANAPPURAM.NS'', stockEntry ''Manappuram Finance'' ''Finance'' 185),
      (''L&TFH.NS'', stockEntry ''L&T Finance Holdings'' ''Finance'' 145),
      (''SBICARD.NS'', stockEntry ''SBI Cards'' ''Finance'' 785),
      (''SHRIRAMFIN.NS'', stockEntry ''Shriram Finance'' ''Finance'' 2250),
      (''M&MFIN.NS'', stockEntry ''M&M Financial Services'' ''Finance'' 285),
      (''POONAWALLA.NS'', stockEntry ''Poonawalla Fincorp'' ''Finance'' 385),
      (''CREDITACC.NS'', stockEntry ''CreditAccess Grameen'' ''Finance'' 1450),
      (''IIFL.NS'', stockEntry ''IIFL Finance'' ''Finance'' 485),
      (''HAL.NS'', stockEntry ''Hindustan Aeronautics'' ''Defence'' 3850),
      (''BEL.NS'', stockEntry ''Bharat Electronics'' ''Defence'' 185),
      (''BEML.NS'', stockEntry ''BEML'' ''Defence'' 2850),
      (''BDL.NS'', stockEntry ''Bharat Dynamics'' ''Defence'' 1085),
      (''COCHINSHIP.NS'', stockEntry ''Cochin Shipyard'' ''Defence'' 785),
      (''GRSE.NS'', stockEntry ''Garden Reach Shipbuilders'' ''Defence'' 785),
      (''MAZAGON.NS'', stockEntry ''Mazagon Dock'' ''Defence'' 2450),
      (''IRCTC.NS'', stockEntry ''IRCTC'' ''Travel'' 785),
      (''IRFC.NS'', stockEntry ''Indian Railway Finance'' ''Finance'' 145),
      (''RVNL.NS'', stockEntry ''Rail Vikas Nigam'' ''Infrastructure'' 185),
      (''RECLTD.NS'', stockEntry ''REC Ltd'' ''Finance'' 485),
      (''PFC.NS'', stockEntry ''Power Finance Corp'' ''Finance'' 385),
      (''HUDCO.NS'', stockEntry ''HUDCO'' ''Finance'' 185),
      (''HFCL.NS'', stockEntry ''HFCL Ltd'' ''Telecom'' 85),
      (''HINDCOPPER.NS'', stockEntry ''Hindustan Copper'' ''Metals'' 185),
      (''OFSS.NS'', stockEntry ''Oracle Financial Services'' ''IT'' 8850),
      (''BALRAMCHIN.NS'', stockEntry ''Balrampur Chini'' ''Sugar'' 385),
      (''RENUKA.NS'', stockEntry ''Shree Renuka Sugars'' ''Sugar'' 45),
      (''DWARIKESH.NS'', stockEntry ''Dwarikesh Sugar'' ''Sugar'' 85),
      (''TRIVENI.NS'', stockEntry ''Triveni Engineering'' ''Sugar'' 385),
      (''COROMANDEL.NS'', stockEntry ''Coromandel International'' ''Fertilizers'' 1180),
      (''CHAMBLFERT.NS'', stockEntry ''Chambal Fertilizers'' ''Fertilizers'' 385),
      (''GNFC.NS'', stockEntry ''GNFC'' ''Fertilizers'' 585),
      (''GSFC.NS'', stockEntry ''GSFC'' ''Fertilizers'' 185),
      (''RCF.NS'', stockEntry ''Rashtriya Chemicals'' ''Fertilizers'' 145),
      (''PIIND.NS'', stockEntry ''PI Industries'' ''Agrochemicals'' 3450),
      (''UPL.NS'', stockEntry ''UPL Ltd'' ''Agrochemicals'' 485),
      (''BAYER.NS'', stockEntry ''Bayer CropScience'' ''Agrochemicals'' 5850),
      (''RALLIS.NS'', stockEntry ''Rallis India'' ''Agrochemicals'' 285),
      (''JKPAPER.NS'', stockEntry ''JK Paper'' ''Paper'' 385),
      (''TNPL.NS'', stockEntry ''Tamil Nadu Newsprint'' ''Paper'' 285),
      (''HUHTAMAKI.NS'', stockEntry ''Huhtamaki India'' ''Packaging'' 285),
      (''UFLEX.NS'', stockEntry ''Uflex'' ''Packaging'' 485),
      (''TITAN.NS'', stockEntry ''Titan'' ''Jewellery'' 3180),
      (''TANLA.NS'', stockEntry ''Tanla Platforms'' ''IT'' 985),
      (''PCJEWELLER.NS'', stockEntry ''PC Jeweller'' ''Jewellery'' 85),
      (''ABORETUM.NS'', stockEntry ''Aptech'' ''Education'' 285),
      (''INDHOTEL.NS'', stockEntry ''Indian Hotels'' ''Hotels'' 485),
      (''LEMONTRE.NS'', stockEntry ''Lemon Tree Hotels'' ''Hotels'' 115),
      (''CHALET.NS'', stockEntry ''Chalet Hotels'' ''Hotels'' 685),
      (''MAHINDCIE.NS'', stockEntry ''Mahindra CIE'' ''Auto Ancillary'' 485),
      (''EASEMYTRIP.NS'', stockEntry ''Easy Trip Planners'' ''Travel'' 35),
      (''THOMASCOOK.NS'', stockEntry ''Thomas Cook India'' ''Travel'' 145),
      (''YATRA.NS'', stockEntry ''Yatra Online'' ''Travel'' 115)]"

definition INDIAN_STOCKS :: catalog where
  "INDIAN_STOCKS = objectLiteral INDIAN_STOCKS_entries"

definition INDICES_entries :: catalog where
  "INDICES_entries =
     [(''^NSEI'', indexEntry ''NIFTY 50'' 23250),
      (''^BSESN'', indexEntry ''SENSEX'' 76850),
      (''^NSEBANK'', indexEntry ''NIFTY Bank'' 49250),
      (''^CNXIT'', indexEntry ''NIFTY IT'' 42580),
      (''^CNXPHARMA'', indexEntry ''NIFTY Pharma'' 21250),
      (''^CNXAUTO'', indexEntry ''NIFTY Auto'' 23850),
      (''^CNXFMCG'', indexEntry ''NIFTY FMCG'' 56450),
      (''^CNXMETAL'', indexEntry ''NIFTY Metal'' 9150),
      (''^CNXREALTY'', indexEntry ''NIFTY Realty'' 1085),
      (''^CNXENERGY'', indexEntry ''NIFTY Energy'' 35450),
      (''^CNXINFRA'', indexEntry ''NIFTY Infra'' 8250),
      (''^CNXPSUBANK'', indexEntry ''NIFTY PSU Bank'' 7250),
      (''^CNXFIN'', indexEntry ''NIFTY Financial Services'' 23450),
      (''^CNXMEDIA'', indexEntry ''NIFTY Media'' 1950),
      (''^NSMIDCP'', indexEntry ''NIFTY Midcap 50'' 15850),
      (''^NSEMDCP100'', indexEntry ''NIFTY Midcap 100'' 55250),
      (''^NSESMLCP'', indexEntry ''NIFTY Smallcap 100'' 18450),
      (''^NIFTY500'', indexEntry ''NIFTY 500'' 21850)]"

definition INDICES :: catalog where
  "INDICES = objectLiteral INDICES_entries"

section \<open>Quotes and the simulation tick\<close>

record quote =
  symbol :: symbol
  name :: string
  sector :: string
  price :: real
  previousClose :: real
  q_open :: real
  high :: real
  low :: real
  volume :: real
  change :: real
  changePercent :: real
  lastUpdated :: int
  bid :: real
  ask :: real
  bidSize :: real
  askSize :: real

text \<open>
  \<^verbatim>\<open>simulatedPrices\<close> is a \<^verbatim>\<open>Map\<close>: an association list in insertion order,
  \<^verbatim>\<open>get\<close> is \<^const>\<open>map_of\<close> and \<^verbatim>\<open>set\<close> is \<^const>\<open>AList.update\<close>, which
  replaces the value of a key in place and appends a new key at the end.
\<close>

type_synonym price_store = "(symbol \<times> quote) list"

text \<open>
  The body of the \<^verbatim>\<open>forEach\<close> callback of \<^verbatim>\<open>updateSimulatedPrices\<close> for one
  entry: three draws, then either no write at all, or three more draws and one
  \<^verbatim>\<open>set\<close> of a whole new record.
\<close>

definition updateOne ::
  "catalog \<Rightarrow> simulation_settings \<Rightarrow> int \<Rightarrow> rng \<Rightarrow> symbol \<times> quote \<Rightarrow> price_store \<times> nat
     \<Rightarrow> price_store \<times> nat" where
  "updateOne stocks st now rnd entry acc =
     (let symb = fst entry; stockData = snd entry;
          store = fst acc; k = snd acc;
          speedMultiplier = speed st * volatilityMultiplier st;
          tickSize = priceTickSize st;
          maxTicks = maxTickMultiplier st;
          volatility = getVolatility stocks symb * speedMultiplier;
          numTicks = Math_floor (rnd k * maxTicks) + 1;
          tickValue = tickSize * numTicks;
          directionBias = (rnd (k + 1) - 1 / 2) * 2;
          movementChance = 7 / 10 + volatility * 5
      in if rnd (k + 2) > movementChance then (store, k + 3)
         else
           let change' = (if directionBias > 0 then tickValue else - tickValue);
               newPrice = max (price stockData + change') (price stockData * (1 / 2));
               high' = max (high stockData) newPrice;
               low' = min (low stockData) newPrice;
               priceChange = newPrice - previousClose stockData;
               changePercent' = priceChange / previousClose stockData * 100;
               volumeIncrease = Math_floor (rnd (k + 3) * 50000)
           in (AList.update symb
                 (stockData\<lparr>price := toFixed2 newPrice,
                    high := toFixed2 high',
                    low := toFixed2 low',
                    change := toFixed2 priceChange,
                    changePercent := toFixed2 changePercent',
                    volume := volume stockData + volumeIncrease,
                    bid := toFixed2 (newPrice * (9995 / 10000)),
                    ask := toFixed2 (newPrice * (10005 / 10000)),
                    bidSize := Math_floor (rnd (k + 4) * 1000) + 100,
                    askSize := Math_floor (rnd (k + 5) * 1000) + 100,
                    lastUpdated := now\<rparr>) store, k + 6))"

text \<open>
  \<^verbatim>\<open>updateSimulatedPrices\<close>: the gate, then the callback over the entries of the map
  in order. A \<^verbatim>\<open>set\<close> of a key that is already there does not change what the
  iteration visits.
\<close>

definition updateSimulatedPrices ::
  "catalog \<Rightarrow> simulation_settings \<Rightarrow> int \<Rightarrow> rng \<Rightarrow> price_store \<times> nat \<Rightarrow> price_store \<times> nat" where
  "updateSimulatedPrices stocks st now rnd acc =
     (let marketStatus = isMarketOpen st now
      in if \<not> isOpen marketStatus \<and> \<not> alwaysOpen st then acc
         else fold (updateOne stocks st now rnd) (fst acc) acc)"

section \<open>The history synthesizer\<close>

record candle =
  date :: int
  timestamp :: int
  c_open :: real
  c_high :: real
  c_low :: real
  c_close :: real
  c_volume :: real

text \<open>The \<^verbatim>\<open>change\<close> of one kept day, from the draw \<open>r\<close>.\<close>

definition dayChange :: "real \<Rightarrow> real \<Rightarrow> real \<Rightarrow> real \<Rightarrow> real" where
  "dayChange basePrice' volatility currentPrice r =
     (let trend = (basePrice' - currentPrice) * (1 / 1000)
      in (r - 1 / 2) * volatility * currentPrice + trend)"

text \<open>
  One round of the loop of \<^verbatim>\<open>generateHistoricalData\<close>, for the day \<open>i\<close> days back.
  \<^verbatim>\<open>setDate(getDate() - i)\<close> moves the local calendar day and keeps the local time
  of day, which at a fixed offset is \<open>i\<close> times 24 hours; \<^verbatim>\<open>getDay()\<close> is the local
  day of the week and \<^verbatim>\<open>toISOString()\<close> the UTC date. A skipped day draws nothing
  and leaves the price; a kept day gives a candle, four draws on, and its unrounded
  close is the price carried to the next day.
\<close>

definition historyDay ::
  "real \<Rightarrow> real \<Rightarrow> int \<Rightarrow> int \<Rightarrow> rng \<Rightarrow> nat \<Rightarrow> real \<times> nat \<Rightarrow> candle option \<times> real \<times> nat" where
  "historyDay basePrice' volatility now tz rnd i acc =
     (let currentPrice = fst acc; k = snd acc;
          date' = now - int i * msPerDay
      in if getDay tz date' = 0 \<or> getDay tz date' = 6 then (None, currentPrice, k)
         else
           let change' = dayChange basePrice' volatility currentPrice (rnd k);
               open' = currentPrice;
               close' = max (currentPrice + change') (currentPrice * (1 / 2));
               high' = max open' close' * (1 + rnd (k + 1) * volatility * (1 / 2));
               low' = min open' close' * (1 - rnd (k + 2) * volatility * (1 / 2));
               volume' = Math_floor (rnd (k + 3) * 10000000) + 500000
           in (Some \<lparr>date = isoDate date', timestamp = date',
                      c_open = toFixed2 open', c_high = toFixed2 high',
                      c_low = toFixed2 low', c_close = toFixed2 close',
                      c_volume = volume'\<rparr>, close', k + 4))"

text \<open>\<^verbatim>\<open>for (let i = days; i >= 0; i--)\<close>, the candles pushed in that order.\<close>

fun historyLoop ::
  "real \<Rightarrow> real \<Rightarrow> int \<Rightarrow> int \<Rightarrow> rng \<Rightarrow> nat \<Rightarrow> real \<times> nat \<Rightarrow> candle list \<times> nat" where
  "historyLoop basePrice' volatility now tz rnd 0 acc =
     (case historyDay basePrice' volatility now tz rnd 0 acc of
        (c, currentPrice, k) \<Rightarrow> (case c of None \<Rightarrow> [] | Some x \<Rightarrow> [x], k))"
| "historyLoop basePrice' volatility now tz rnd (Suc i) acc =
     (case historyDay basePrice' volatility now tz rnd (Suc i) acc of
        (c, currentPrice, k) \<Rightarrow>
          (case historyLoop basePrice' volatility now tz rnd i (currentPrice, k) of
             (cs, k') \<Rightarrow> ((case c of None \<Rightarrow> [] | Some x \<Rightarrow> [x]) @ cs, k')))"

definition generateHistoricalData ::
  "catalog \<Rightarrow> real \<Rightarrow> symbol \<Rightarrow> nat \<Rightarrow> int \<Rightarrow> int \<Rightarrow> rng \<Rightarrow> nat \<Rightarrow> candle list \<times> nat" where
  "generateHistoricalData stocks basePrice' symb days now tz rnd k =
     (let currentPrice = basePrice' * (7 / 10 + rnd k * (4 / 10));
          volatility = getVolatility stocks symb * 2
      in historyLoop basePrice' volatility now tz rnd days (currentPrice, k + 1))"

section \<open>The server state and initialization\<close>

text \<open>
  \<^verbatim>\<open>priceHistory\<close> maps a symbol to an array of candle objects. Arrays and candle
  objects live in a store of their own, so that a write through a reference is seen by
  everyone who holds the reference: an array is the list of the addresses of its
  elements. \<open>nextAddr\<close> is the allocator, the first address never used.
\<close>

type_synonym addr = nat

record server_state =
  simulatedPrices :: price_store
  priceHistory :: "(symbol \<times> addr) list"
  arrays :: "addr \<rightharpoonup> addr list"
  candles :: "addr \<rightharpoonup> candle"
  nextAddr :: addr

definition emptyState :: server_state where
  "emptyState =
     \<lparr>simulatedPrices = [], priceHistory = [], arrays = Map.empty, candles = Map.empty,
      nextAddr = 0\<rparr>"

definition allocCandle :: "candle \<Rightarrow> server_state \<Rightarrow> addr \<times> server_state" where
  "allocCandle c s =
     (nextAddr s, s\<lparr>candles := (candles s)(nextAddr s \<mapsto> c), nextAddr := nextAddr s + 1\<rparr>)"

definition allocArray :: "addr list \<Rightarrow> server_state \<Rightarrow> addr \<times> server_state" where
  "allocArray xs s =
     (nextAddr s, s\<lparr>arrays := (arrays s)(nextAddr s \<mapsto> xs), nextAddr := nextAddr s + 1\<rparr>)"

text \<open>The candle objects of a generated series, allocated in order, then their array.\<close>

fun allocCandles :: "candle list \<Rightarrow> server_state \<Rightarrow> addr list \<times> server_state" where
  "allocCandles [] s = ([], s)"
| "allocCandles (c # cs) s =
     (case allocCandle c s of
        (a, s') \<Rightarrow> (case allocCandles cs s' of (as, s'') \<Rightarrow> (a # as, s'')))"

definition allocHistory :: "candle list \<Rightarrow> server_state \<Rightarrow> addr \<times> server_state" where
  "allocHistory cs s = (case allocCandles cs s of (as, s') \<Rightarrow> allocArray as s')"

text \<open>
  \<^verbatim>\<open>{ ...INDIAN_STOCKS, ...INDICES }\<close>: the keys of the first table in order, then
  the new keys of the second; a key of both keeps its place and takes the second value.
\<close>

definition allStocks :: "catalog \<Rightarrow> catalog \<Rightarrow> catalog" where
  "allStocks stocks indices = objectLiteral (stocks @ indices)"

text \<open>
  The record \<^verbatim>\<open>initializeSimulatedPrices\<close> stores for one catalog entry. The raw
  price takes the draw \<open>k\<close>; the fields of the object literal take the next six in the
  order they are written.
\<close>

definition initialQuote :: "catalog \<Rightarrow> int \<Rightarrow> rng \<Rightarrow> nat \<Rightarrow> symbol \<Rightarrow> stock_entry \<Rightarrow> quote" where
  "initialQuote stocks now rnd k symb data =
     (let volatility = getVolatility stocks symb;
          randomVariation = (rnd k - 1 / 2) * 2 * volatility * basePrice data;
          price' = basePrice data + randomVariation
      in \<lparr>symbol = symb,
          name = e_name data,
          sector = (case e_sector data of None \<Rightarrow> ''Index''
                    | Some s \<Rightarrow> if s = [] then ''Index'' else s),
          price = toFixed2 price',
          previousClose = basePrice data,
          q_open = basePrice data + (rnd (k + 1) - 1 / 2) * (1 / 100) * basePrice data,
          high = price' * (1 + rnd (k + 2) * (2 / 100)),
          low = price' * (1 - rnd (k + 3) * (2 / 100)),
          volume = Math_floor (rnd (k + 4) * 10000000) + 1000000,
          change = toFixed2 (price' - basePrice data),
          changePercent = toFixed2 ((price' - basePrice data) / basePrice data * 100),
          lastUpdated = now,
          bid = toFixed2 (price' * (9995 / 10000)),
          ask = toFixed2 (price' * (10005 / 10000)),
          bidSize = Math_floor (rnd (k + 5) * 1000) + 100,
          askSize = Math_floor (rnd (k + 6) * 1000) + 100\<rparr>)"

text \<open>
  The callback of \<^verbatim>\<open>initializeSimulatedPrices\<close> for one entry: the quote is set,
  then the history is generated (365 days, the default) and set.
\<close>

definition initEntry ::
  "catalog \<Rightarrow> int \<Rightarrow> int \<Rightarrow> rng \<Rightarrow> symbol \<times> stock_entry \<Rightarrow> server_state \<times> nat
     \<Rightarrow> server_state \<times> nat" where
  "initEntry stocks now tz rnd entry acc =
     (let symb = fst entry; data = snd entry; s = fst acc; k = snd acc;
          s1 = s\<lparr>simulatedPrices :=
                   AList.update symb (initialQuote stocks now rnd k symb data) (simulatedPrices s)\<rparr>
      in case generateHistoricalData stocks (basePrice data) symb 365 now tz rnd (k + 7) of
           (cs, k') \<Rightarrow>
             (case allocHistory cs s1 of
                (arr, s2) \<Rightarrow> (s2\<lparr>priceHistory := AList.update symb arr (priceHistory s2)\<rparr>, k')))"

definition initializeSimulatedPrices ::
  "catalog \<Rightarrow> catalog \<Rightarrow> int \<Rightarrow> int \<Rightarrow> rng \<Rightarrow> server_state \<times> nat \<Rightarrow> server_state \<times> nat" where
  "initializeSimulatedPrices stocks indices now tz rnd acc =
     fold (initEntry stocks now tz rnd) (allStocks stocks indices) acc"

text \<open>
  \<^verbatim>\<open>POST /api/simulation/reset\<close> calls \<^verbatim>\<open>initializeSimulatedPrices\<close> on the state
  as it is and touches nothing else.
\<close>

definition resetSimulation ::
  "catalog \<Rightarrow> catalog \<Rightarrow> int \<Rightarrow> int \<Rightarrow> rng \<Rightarrow> server_state \<times> nat \<Rightarrow> server_state \<times> nat" where
  "resetSimulation stocks indices now tz rnd acc =
     initializeSimulatedPrices stocks indices now tz rnd acc"

text \<open>A catalog whose base prices are all positive, as the ones in the source are.\<close>

definition catalogOk :: "catalog \<Rightarrow> catalog \<Rightarrow> bool" where
  "catalogOk stocks indices \<longleftrightarrow> list_all (\<lambda>kv. 0 < basePrice (snd kv)) (stocks @ indices)"

section \<open>The settings endpoint and the update timer\<close>

text \<open>
  The timer is known through the calls the server makes: \<^verbatim>\<open>clearInterval\<close> of a
  handle and \<^verbatim>\<open>setInterval\<close>, which returns a fresh handle. The handle is an object,
  so \<^verbatim>\<open>if (updateIntervalId)\<close> asks whether one was stored.
\<close>

datatype timer_call = ClearInterval nat | SetInterval nat real

record engine =
  simulationSettings :: simulation_settings
  updateIntervalId :: "nat option"
  timerCalls :: "timer_call list"
  nextTimer :: nat

definition startPriceUpdates :: "engine \<Rightarrow> engine" where
  "startPriceUpdates e =
     (let calls = (case updateIntervalId e of
                     None \<Rightarrow> timerCalls e
                   | Some t \<Rightarrow> timerCalls e @ [ClearInterval t]);
          interval = max 500 (updateInterval (simulationSettings e) / speed (simulationSettings e));
          t' = nextTimer e
      in e\<lparr>updateIntervalId := Some t',
            timerCalls := calls @ [SetInterval t' interval],
            nextTimer := t' + 1\<rparr>)"

text \<open>
  The body of \<^verbatim>\<open>PUT /api/simulation/settings\<close>: each field is a number (a boolean
  for \<^verbatim>\<open>alwaysOpen\<close>) or absent, which destructuring reads as \<^verbatim>\<open>undefined\<close>.
\<close>

record settings_body =
  b_speed :: "real option"
  b_volatilityMultiplier :: "real option"
  b_alwaysOpen :: "bool option"
  b_updateInterval :: "real option"
  b_priceTickSize :: "real option"
  b_maxTickMultiplier :: "real option"

definition emptyBody :: settings_body where
  "emptyBody =
     \<lparr>b_speed = None, b_volatilityMultiplier = None, b_alwaysOpen = None,
      b_updateInterval = None, b_priceTickSize = None, b_maxTickMultiplier = None\<rparr>"

definition validTickSizes :: "real list" where
  "validTickSizes = [1 / 100, 5 / 100, 10 / 100, 25 / 100, 50 / 100, 1]"

definition applyBody :: "settings_body \<Rightarrow> simulation_settings \<Rightarrow> simulation_settings" where
  "applyBody body st =
     (let st1 = (case b_speed body of
                   Some v \<Rightarrow> if v > 0 \<and> v \<le> 10 then st\<lparr>speed := v\<rparr> else st
                 | None \<Rightarrow> st);
          st2 = (case b_volatilityMultiplier body of
                   Some v \<Rightarrow> if v > 0 \<and> v \<le> 5 then st1\<lparr>volatilityMultiplier := v\<rparr> else st1
                 | None \<Rightarrow> st1);
          st3 = (case b_alwaysOpen body of
                   Some v \<Rightarrow> st2\<lparr>alwaysOpen := v\<rparr>
                 | None \<Rightarrow> st2);
          st4 = (case b_updateInterval body of
                   Some v \<Rightarrow> if v \<ge> 500 \<and> v \<le> 10000 then st3\<lparr>updateInterval := v\<rparr> else st3
                 | None \<Rightarrow> st3);
          st5 = (case b_priceTickSize body of
                   Some v \<Rightarrow> if v \<in> set validTickSizes then st4\<lparr>priceTickSize := v\<rparr> else st4
                 | None \<Rightarrow> st4);
          st6 = (case b_maxTickMultiplier body of
                   Some v \<Rightarrow> if v \<ge> 1 \<and> v \<le> 10
                             then st5\<lparr>maxTickMultiplier := Math_floor v\<rparr> else st5
                 | None \<Rightarrow> st5)
      in st6)"

text \<open>The handler: the six guarded assignments, then \<^verbatim>\<open>startPriceUpdates()\<close>.\<close>

definition putSettings :: "settings_body \<Rightarrow> engine \<Rightarrow> engine" where
  "putSettings body e =
     startPriceUpdates (e\<lparr>simulationSettings := applyBody body (simulationSettings e)\<rparr>)"

text \<open>The engine once the module has loaded: default settings, the first timer armed.\<close>

definition initialEngine :: engine where
  "initialEngine =
     startPriceUpdates
       \<lparr>simulationSettings = defaultSettings, updateIntervalId = None, timerCalls = [],
        nextTimer = 0\<rparr>"

section \<open>The history endpoint\<close>

text \<open>
  \<^verbatim>\<open>ranges[range] || 365\<close> reads a property of an object literal. Besides the six
  keys of its own, the object inherits the properties of \<^verbatim>\<open>Object.prototype\<close>,
  whose values are functions and objects: truthy, and NaN in arithmetic.
\<close>

datatype jsval = Undefined | Number int | Inherited

definition ranges :: "(string \<times> int) list" where
  "ranges = [(''1d'', 1), (''5d'', 5), (''1mo'', 30), (''3mo'', 90), (''6mo'', 180), (''1y'', 365)]"

definition objectPrototypeKeys :: "string list" where
  "objectPrototypeKeys =
     [''constructor'', ''__defineGetter__'', ''__defineSetter__'', ''hasOwnProperty'',
      ''__lookupGetter__'', ''__lookupSetter__'', ''isPrototypeOf'',
      ''propertyIsEnumerable'', ''toString'', ''valueOf'', ''__proto__'', ''toLocaleString'']"

definition rangesLookup :: "string \<Rightarrow> jsval" where
  "rangesLookup r =
     (case map_of ranges r of
        Some n \<Rightarrow> Number n
      | None \<Rightarrow> if r \<in> set objectPrototypeKeys then Inherited else Undefined)"

definition daysToInclude :: "string \<Rightarrow> jsval" where
  "daysToInclude r =
     (case rangesLookup r of
        Number n \<Rightarrow> if n = 0 then Number 365 else Number n
      | Inherited \<Rightarrow> Inherited
      | Undefined \<Rightarrow> Number 365)"

text \<open>\<^verbatim>\<open>Date.now() - daysToInclude * 24 * 60 * 60 * 1000\<close>; \<open>None\<close> is NaN.\<close>

definition cutoffDate :: "int \<Rightarrow> string \<Rightarrow> int option" where
  "cutoffDate now r =
     (case daysToInclude r of
        Number n \<Rightarrow> Some (now - n * 24 * 60 * 60 * 1000)
      | Inherited \<Rightarrow> None
      | Undefined \<Rightarrow> None)"

text \<open>\<^verbatim>\<open>candle.timestamp >= cutoffDate\<close>: a comparison with NaN is false.\<close>

definition keepCandle :: "int option \<Rightarrow> candle \<Rightarrow> bool" where
  "keepCandle cutoff c = (case cutoff of None \<Rightarrow> False | Some t \<Rightarrow> timestamp c \<ge> t)"

text \<open>\<^verbatim>\<open>toUpperCase\<close> and \<^verbatim>\<open>includes\<close>, on ASCII text.\<close>

definition upperChar :: "char \<Rightarrow> char" where
  "upperChar c =
     (let n = (of_char c :: nat) in if 97 \<le> n \<and> n \<le> 122 then char_of (n - 32) else c)"

definition toUpperCase :: "string \<Rightarrow> string" where
  "toUpperCase s = map upperChar s"

fun str_includes :: "string \<Rightarrow> string \<Rightarrow> bool" where
  "str_includes [] sub = (sub = [])"
| "str_includes (c # cs) sub = (take (length sub) (c # cs) = sub \<or> str_includes cs sub)"

text \<open>\<^verbatim>\<open>m.get(a) || m.get(b)\<close> where the values are objects.\<close>

definition getEither :: "(string \<times> 'v) list \<Rightarrow> string \<Rightarrow> string \<Rightarrow> 'v option" where
  "getEither m a b = (case map_of m a of Some v \<Rightarrow> Some v | None \<Rightarrow> map_of m b)"

text \<open>Reading and writing arrays through their address.\<close>

definition arrayElems :: "server_state \<Rightarrow> addr \<Rightarrow> addr list" where
  "arrayElems s arr = (case arrays s arr of None \<Rightarrow> [] | Some xs \<Rightarrow> xs)"

definition readArray :: "server_state \<Rightarrow> addr \<Rightarrow> candle list" where
  "readArray s arr = List.map_filter (candles s) (arrayElems s arr)"

definition arrayFilter :: "(candle \<Rightarrow> bool) \<Rightarrow> addr \<Rightarrow> server_state \<Rightarrow> addr \<times> server_state" where
  "arrayFilter P arr s =
     allocArray
       (filter (\<lambda>a. case candles s a of None \<Rightarrow> False | Some c \<Rightarrow> P c) (arrayElems s arr)) s"

definition arraySet :: "addr \<Rightarrow> nat \<Rightarrow> addr \<Rightarrow> server_state \<Rightarrow> server_state" where
  "arraySet arr i a s = s\<lparr>arrays := (arrays s)(arr \<mapsto> (arrayElems s arr)[i := a])\<rparr>"

definition arrayPush :: "addr \<Rightarrow> addr \<Rightarrow> server_state \<Rightarrow> server_state" where
  "arrayPush arr a s = s\<lparr>arrays := (arrays s)(arr \<mapsto> arrayElems s arr @ [a])\<rparr>"

text \<open>The two object literals of the handler.\<close>

definition overlayCandle :: "candle \<Rightarrow> quote \<Rightarrow> candle" where
  "overlayCandle lastCandle currentStock =
     lastCandle\<lparr>c_close := price currentStock,
       c_high := max (c_high lastCandle) (price currentStock),
       c_low := min (c_low lastCandle) (price currentStock),
       c_volume := js_or (volume currentStock) (c_volume lastCandle)\<rparr>"

definition todayCandle :: "quote \<Rightarrow> int \<Rightarrow> candle" where
  "todayCandle currentStock now =
     \<lparr>date = isoDate now, timestamp = now,
      c_open = js_or (previousClose currentStock) (price currentStock),
      c_high = js_or (high currentStock) (price currentStock),
      c_low = js_or (low currentStock) (price currentStock),
      c_close = price currentStock,
      c_volume = js_or (volume currentStock) 0\<rparr>"

datatype http_error = NotFound

record history_response =
  r_data :: "candle list"
  r_symbol :: string
  r_range :: string

text \<open>
  \<^verbatim>\<open>GET /api/stocks/:symbol/history\<close>. The variable \<^verbatim>\<open>history\<close> holds an address:
  first the stored array, after \<^verbatim>\<open>filter\<close> a new one. The reply is the array read
  out when it is serialized.
\<close>

definition serveToday :: "addr \<Rightarrow> quote \<Rightarrow> int \<Rightarrow> server_state \<Rightarrow> server_state" where
  "serveToday history currentStock now s =
     (let n = length (arrayElems s history)
      in if n > 0 then
           (case candles s (arrayElems s history ! (n - 1)) of
              None \<Rightarrow> s
            | Some lastCandle \<Rightarrow>
                if date lastCandle = isoDate now
                then (case allocCandle (overlayCandle lastCandle currentStock) s of
                        (a, s') \<Rightarrow> arraySet history (n - 1) a s')
                else (case allocCandle (todayCandle currentStock now) s of
                        (a, s') \<Rightarrow> arrayPush history a s'))
         else s)"

definition getHistory ::
  "server_state \<Rightarrow> int \<Rightarrow> string \<Rightarrow> string option
     \<Rightarrow> (http_error + history_response) \<times> server_state" where
  "getHistory s now symbolParam rangeQuery =
     (let symb = toUpperCase symbolParam;
          searchSymbol = (if str_includes symb ''.NS'' then symb else symb @ ''.NS'');
          range = (case rangeQuery of None \<Rightarrow> ''1y'' | Some r \<Rightarrow> r)
      in case getEither (priceHistory s) searchSymbol symb of
           None \<Rightarrow> (Inl NotFound, s)
         | Some stored \<Rightarrow>
             (case arrayFilter (keepCandle (cutoffDate now range)) stored s of
                (history, s1) \<Rightarrow>
                  (let s2 = (case getEither (simulatedPrices s1) searchSymbol symb of
                               None \<Rightarrow> s1
                             | Some currentStock \<Rightarrow> serveToday history currentStock now s1)
                   in (Inr \<lparr>r_data = readArray s2 history, r_symbol = searchSymbol,
                             r_range = range\<rparr>, s2))))"

section \<open>The specification's formulas\<close>

text \<open>
  The per-day delta as the specification words it: a uniform draw in \<open>[-1, 1]\<close>, which
  is \<open>2r - 1\<close> for a draw \<open>r\<close> in \<open>[0, 1)\<close>, times twice the sector's volatility, times
  the current price, plus the trend.
\<close>

definition claimedDelta :: "real \<Rightarrow> real \<Rightarrow> real \<Rightarrow> real \<Rightarrow> real" where
  "claimedDelta basePrice' sectorVol currentPrice r =
     (2 * r - 1) * (2 * sectorVol) * currentPrice + (basePrice' - currentPrice) * (1 / 1000)"

text \<open>
  The served series as the specification words it, in terms of the range-filtered
  candles: it ends with a candle dated today, and before that candle come the filtered
  candles, without the last of them when that one was today's and was overlaid. The
  specification says so of every case, an empty filter result among them.
\<close>

definition claimedServed :: "candle list \<Rightarrow> int \<Rightarrow> candle list \<Rightarrow> bool" where
  "claimedServed filtered now served \<longleftrightarrow>
     served \<noteq> [] \<and> date (last served) = isoDate now
     \<and> butlast served
         = (if filtered \<noteq> [] \<and> date (last filtered) = isoDate now
            then butlast filtered else filtered)"

section \<open>Properties of quotes, candles and states\<close>

text \<open>
  The price within the day's range and at least one cent; the price within the spread,
  and not negative; a candle whose open and close lie between its low and its high.
\<close>

definition priceBounds :: "quote \<Rightarrow> bool" where
  "priceBounds q \<longleftrightarrow> low q \<le> price q \<and> price q \<le> high q \<and> 1 / 100 \<le> price q"

definition spreadOk :: "quote \<Rightarrow> bool" where
  "spreadOk q \<longleftrightarrow> bid q \<le> price q \<and> price q \<le> ask q \<and> 0 \<le> price q"

definition candleOk :: "candle \<Rightarrow> bool" where
  "candleOk c \<longleftrightarrow>
     c_low c \<le> c_open c \<and> c_open c \<le> c_high c \<and> c_low c \<le> c_close c \<and> c_close c \<le> c_high c"

text \<open>
  The states of a running server: the module initializes the store from the empty
  state; from then on the reset endpoint, the timer's tick (under whatever settings are
  in force) and the history endpoint act on it. Every random draw lies in \<open>[0, 1)\<close>.
\<close>

inductive reachable :: "catalog \<Rightarrow> catalog \<Rightarrow> server_state \<Rightarrow> bool"
  for stocks indices :: catalog where
  start: "rng_ok rnd \<Longrightarrow>
      reachable stocks indices
        (fst (initializeSimulatedPrices stocks indices now tz rnd (emptyState, k)))"
| reset: "reachable stocks indices s \<Longrightarrow> rng_ok rnd \<Longrightarrow>
      reachable stocks indices (fst (resetSimulation stocks indices now tz rnd (s, k)))"
| tick: "reachable stocks indices s \<Longrightarrow> rng_ok rnd \<Longrightarrow>
      reachable stocks indices
        (s\<lparr>simulatedPrices :=
             fst (updateSimulatedPrices stocks st now rnd (simulatedPrices s, k))\<rparr>)"
| history: "reachable stocks indices s \<Longrightarrow>
      reachable stocks indices (snd (getHistory s now symbolParam rangeQuery))"

text \<open>
  A state without dangling references: every allocated address lies below the
  allocator, every element of an array is an allocated candle, and every series of
  \<^verbatim>\<open>priceHistory\<close> is an allocated array.
\<close>

definition wellFormed :: "server_state \<Rightarrow> bool" where
  "wellFormed s \<longleftrightarrow>
     (\<forall>a c. candles s a = Some c \<longrightarrow> a < nextAddr s)
     \<and> (\<forall>a xs. arrays s a = Some xs \<longrightarrow> a < nextAddr s \<and> (\<forall>x \<in> set xs. candles s x \<noteq> None))
     \<and> (\<forall>symb arr. map_of (priceHistory s) symb = Some arr \<longrightarrow> arrays s arr \<noteq> None)"

text \<open>
  What the handler serves, as a function of the range-filtered candles and the live
  quote: nothing for no candles, otherwise the overlay or the appended candle.
\<close>

definition servedView :: "candle list \<Rightarrow> quote \<Rightarrow> int \<Rightarrow> candle list" where
  "servedView filtered currentStock now =
     (if filtered = [] then []
      else if date (last filtered) = isoDate now
      then butlast filtered @ [overlayCandle (last filtered) currentStock]
      else filtered @ [todayCandle currentStock now])"

section \<open>Example data\<close>

text \<open>
  A one-entry catalog and the quote that initialization stores for it when every draw
  is \<open>1/2\<close>; the settings with the always-open override off; streams of draws.
\<close>

definition fooEntry :: stock_entry where
  "fooEntry = \<lparr>e_name = ''Foo Ltd'', e_sector = Some ''IT'', basePrice = 100\<rparr>"

definition fooStocks :: catalog where
  "fooStocks = [(''FOO.NS'', fooEntry)]"

definition fooQuote :: quote where
  "fooQuote =
     \<lparr>symbol = ''FOO.NS'', name = ''Foo Ltd'', sector = ''IT'', price = 100,
      previousClose = 100, q_open = 100, high = 101, low = 99, volume = 6000000,
      change = 0, changePercent = 0, lastUpdated = 1770012000000,
      bid = 9995 / 100, ask = 10005 / 100, bidSize = 600, askSize = 600\<rparr>"

definition realHours :: simulation_settings where
  "realHours = defaultSettings\<lparr>alwaysOpen := False\<rparr>"

definition halves :: rng where
  "halves = (\<lambda>n. 1 / 2)"

definition nines :: rng where
  "nines = (\<lambda>n. 9 / 10)"

definition threeQuarters :: rng where
  "threeQuarters = (\<lambda>n. 3 / 4)"

definition skewedDraws :: rng where
  "skewedDraws = (\<lambda>n. if n = 0 then 5012 / 10000 else 0)"

text \<open>
  Instants: Sunday 2026-02-01 06:00 UTC (11:30 in India); Monday 2026-02-02 06:00 UTC;
  and Sunday 2026-02-01 20:30 UTC, which is Monday 02:00 on a clock set to India
  Standard Time, five and a half hours ahead of UTC.
\<close>

definition sundayMorning :: int where
  "sundayMorning = 1769925600000"

definition mondayMorning :: int where
  "mondayMorning = 1770012000000"

definition mondayTwoAmIndia :: int where
  "mondayTwoAmIndia = 1769977800000"

definition indiaOffset :: int where
  "indiaOffset = 330"

text \<open>
  The quote that initialization stores under the draws \<open>0.5012, 0, 0, \<dots>\<close>, and the
  state that the module's initialization of the one-entry catalog reaches under them.
\<close>

definition startQuote :: quote where
  "startQuote = initialQuote fooStocks mondayMorning skewedDraws 0 ''FOO.NS'' fooEntry"

definition startState :: server_state where
  "startState =
     fst (initializeSimulatedPrices fooStocks [] mondayMorning 0 skewedDraws (emptyState, 0))"

text \<open>
  A state with one symbol whose stored series is one candle, of Friday 2026-01-30
  06:00 UTC; the candle object is at address 0 and the array at address 1.
\<close>

definition fridayCandle :: candle where
  "fridayCandle =
     \<lparr>date = 20483, timestamp = 1769752800000, c_open = 100, c_high = 101, c_low = 99,
      c_close = 100, c_volume = 5500000\<rparr>"

definition fooState :: server_state where
  "fooState =
     \<lparr>simulatedPrices = [(''FOO.NS'', fooQuote)], priceHistory = [(''FOO.NS'', 1)],
      arrays = [1 \<mapsto> [0]], candles = [0 \<mapsto> fridayCandle], nextAddr = 2\<rparr>"

text \<open>
  The same symbol with a second candle, of Monday 2026-02-02 01:00 UTC: the candle
  objects are at addresses 0 and 1 and the array at address 2.
\<close>

definition mondayCandle :: candle where
  "mondayCandle =
     \<lparr>date = 20486, timestamp = 1769994000000, c_open = 99, c_high = 995 / 10, c_low = 98,
      c_close = 985 / 10, c_volume = 1000\<rparr>"

definition mondayState :: server_state where
  "mondayState =
     \<lparr>simulatedPrices = [(''FOO.NS'', fooQuote)], priceHistory = [(''FOO.NS'', 2)],
      arrays = [2 \<mapsto> [0, 1]], candles = [0 \<mapsto> fridayCandle, 1 \<mapsto> mondayCandle],
      nextAddr = 3\<rparr>"

section \<open>Rounding\<close>

lemma toFixed2_mono:
  assumes "x \<le> y"
  shows "toFixed2 x \<le> toFixed2 y"
proof -
  have fl: "(of_int \<lfloor>a * 100 + 1 / 2\<rfloor> :: real) / 100 \<le> of_int \<lfloor>b * 100 + 1 / 2\<rfloor> / 100"
    if "a \<le> b" for a b :: real
    using that by (simp add: floor_mono divide_right_mono)
  have nn: "0 \<le> (of_int \<lfloor>a * 100 + 1 / 2\<rfloor> :: real) / 100" if "0 \<le> a" for a :: real
    using that by simp
  show ?thesis
  proof (cases "x < 0")
    case xneg: True
    show ?thesis
    proof (cases "y < 0")
      case True
      then show ?thesis
        using xneg assms fl [of "- y" "- x"] by (simp add: toFixed2_def)
    next
      case False
      have "0 \<le> toFixed2 y"
        using False by (simp add: toFixed2_def)
      moreover have "toFixed2 x \<le> 0"
        using xneg by (simp add: toFixed2_def)
      ultimately show ?thesis by linarith
    qed
  next
    case False
    then show ?thesis
      using assms fl [of x y] by (simp add: toFixed2_def)
  qed
qed

lemma toFixed2_nonneg: "0 \<le> x \<Longrightarrow> 0 \<le> toFixed2 x"
  by (simp add: toFixed2_def)

lemma toFixed2_cent:
  assumes "1 / 200 \<le> x"
  shows "1 / 100 \<le> toFixed2 x"
proof -
  have "toFixed2 (1 / 200) \<le> toFixed2 x"
    using assms by (rule toFixed2_mono)
  moreover have "toFixed2 (1 / 200) = 1 / 100"
    by (simp add: toFixed2_def)
  ultimately show ?thesis by simp
qed

section \<open>The market-closed gate\<close>

lemma minutes_of_day:
  fixes now :: int
  shows "getUTCHours now * 60 + getUTCMinutes now = (now div 60000) mod 1440"
proof -
  have a: "now div 3600000 = now div 60000 div 60"
    using zdiv_zmult2_eq [of 60 now 60000] by simp
  have b: "(now div 60000) mod 1440
      = 60 * ((now div 60000) div 60 mod 24) + (now div 60000) mod 60"
    using zmod_zmult2_eq [of 24 "now div 60000" 60] by simp
  show ?thesis unfolding getUTCHours_def getUTCMinutes_def a b by simp
qed

lemma utc_day_of_minutes:
  fixes now :: int
  shows "getUTCDay now = (now div 60000 div 1440 + 4) mod 7"
  unfolding getUTCDay_def msPerDay_def
  using zdiv_zmult2_eq [of 1440 now 60000] by simp

lemma ist_day_of_minutes:
  fixes now :: int
  shows "istWeekday now = ((now div 60000 + 330) div 1440 + 4) mod 7"
proof -
  have "(now + 19800000) div 60000 = now div 60000 + 330"
    by simp
  then show ?thesis
    unfolding istWeekday_def msPerDay_def
    using zdiv_zmult2_eq [of 1440 "now + 19800000" 60000] by simp
qed

lemma ist_day_code:
  fixes m :: int
  shows "(if m mod 1440 + 330 \<ge> 1440 then ((m div 1440 + 4) mod 7 + 1) mod 7
          else (m div 1440 + 4) mod 7)
       = ((m + 330) div 1440 + 4) mod 7"
proof -
  define d where "d = m div 1440"
  define r where "r = m mod 1440"
  have m: "m = d * 1440 + r" and r: "0 \<le> r" "r < 1440"
    by (simp_all add: d_def r_def)
  have split: "(m + 330) div 1440 = d + (r + 330) div 1440"
    unfolding m by (simp add: add.assoc)
  have small: "(r + 330) div 1440 = (if r + 330 \<ge> 1440 then 1 else 0)"
  proof (cases "r + 330 \<ge> 1440")
    case True
    then have "(r + 330 - 1440) div 1440 = 0"
      using r by (intro div_pos_pos_trivial) auto
    moreover have "(r + 330) div 1440 = (r + 330 - 1440) div 1440 + 1"
      by (metis diff_add_cancel div_add_self2 zero_neq_numeral)
    ultimately show ?thesis using True by simp
  next
    case False
    then show ?thesis using r by (simp add: div_pos_pos_trivial)
  qed
  show ?thesis
    unfolding split small d_def [symmetric] r_def [symmetric]
    by (simp add: mod_simps add.assoc add.commute)
qed

lemma istWeekday_closed:
  assumes "\<not> alwaysOpen st" and "istWeekday now = 0 \<or> istWeekday now = 6"
  shows "\<not> isOpen (isMarketOpen st now)"
proof -
  have day: "(if (now div 60000) mod 1440 + 330 \<ge> 24 * 60
              then (getUTCDay now + 1) mod 7 else getUTCDay now) = istWeekday now"
    unfolding utc_day_of_minutes ist_day_of_minutes
    using ist_day_code [of "now div 60000"] by simp
  show ?thesis
    using assms unfolding isMarketOpen_def Let_def minutes_of_day day by auto
qed

text \<open>
  C5. With \<open>alwaysOpen\<close> off and the market clock saying "not open", one run of the
  simulation tick returns the price store as it was: every field of every quote keeps its
  value, and no random draw is consumed. Any instant of a Saturday or Sunday in India
  Standard Time is such a moment.
\<close>

theorem closed_market_tick_unchanged:
  assumes "\<not> alwaysOpen st"
  shows "(\<not> isOpen (isMarketOpen st now) \<longrightarrow>
            updateSimulatedPrices stocks st now rnd (store, k) = (store, k))
       \<and> (istWeekday now = 0 \<or> istWeekday now = 6 \<longrightarrow>
            \<not> isOpen (isMarketOpen st now)
            \<and> updateSimulatedPrices stocks st now rnd (store, k) = (store, k))"
proof -
  have gate: "updateSimulatedPrices stocks st now rnd (store, k) = (store, k)"
    if "\<not> isOpen (isMarketOpen st now)"
    using that assms by (simp add: updateSimulatedPrices_def)
  show ?thesis
    using gate istWeekday_closed [OF assms] by blast
qed

theorem closed_market_tick_unchanged_witness:
  "\<not> alwaysOpen realHours \<and> istWeekday sundayMorning = 0
   \<and> \<not> isOpen (isMarketOpen realHours sundayMorning)
   \<and> updateSimulatedPrices fooStocks realHours sundayMorning halves ([(''FOO.NS'', fooQuote)], 0)
       = ([(''FOO.NS'', fooQuote)], 0)"
proof -
  have a: "\<not> alwaysOpen realHours"
    by (simp add: realHours_def defaultSettings_def)
  have w: "istWeekday sundayMorning = 0"
    by (simp add: istWeekday_def sundayMorning_def msPerDay_def)
  show ?thesis
    using a w closed_market_tick_unchanged
      [OF a, of sundayMorning fooStocks halves "[(''FOO.NS'', fooQuote)]" 0]
    by simp
qed

section \<open>Price bounds under the tick\<close>

lemma in_update_cases:
  assumes "e \<in> set (AList.update k v al)"
  shows "e = (k, v) \<or> e \<in> set al"
  using assms by (induction al) (auto split: if_splits)

lemma updateOne_priceBounds:
  assumes q: "1 / 100 \<le> price q"
  shows "\<forall>e \<in> set (fst (updateOne stocks st now rnd (symb, q) (store, k))).
           e \<in> set store \<or> priceBounds (snd e)"
proof
  fix e
  assume e: "e \<in> set (fst (updateOne stocks st now rnd (symb, q) (store, k)))"
  define newPrice where
    "newPrice = max (price q + (if (rnd (k + 1) - 1 / 2) * 2 > 0
         then priceTickSize st * (Math_floor (rnd k * maxTickMultiplier st) + 1)
         else - (priceTickSize st * (Math_floor (rnd k * maxTickMultiplier st) + 1))))
       (price q * (1 / 2))"
  have half: "1 / 200 \<le> newPrice"
    unfolding newPrice_def using q by (simp add: le_max_iff_disj)
  have p: "1 / 100 \<le> toFixed2 newPrice"
    using half by (rule toFixed2_cent)
  have h: "toFixed2 newPrice \<le> toFixed2 (max (high q) newPrice)"
    by (rule toFixed2_mono) simp
  have l: "toFixed2 (min (low q) newPrice) \<le> toFixed2 newPrice"
    by (rule toFixed2_mono) simp
  from e consider "e \<in> set store"
    | q' where "e = (symb, q')" "price q' = toFixed2 newPrice"
        "high q' = toFixed2 (max (high q) newPrice)" "low q' = toFixed2 (min (low q) newPrice)"
    unfolding updateOne_def Let_def newPrice_def
    by (auto split: if_splits dest!: in_update_cases)
  then show "e \<in> set store \<or> priceBounds (snd e)"
  proof cases
    case 1
    then show ?thesis by simp
  next
    case 2
    then show ?thesis using p h l by (simp add: priceBounds_def)
  qed
qed

lemma fold_updateOne_priceBounds:
  assumes "\<forall>e \<in> set es. 1 / 100 \<le> price (snd e)"
  shows "\<forall>e \<in> set (fst (fold (updateOne stocks st now rnd) es (store, k))).
           e \<in> set store \<or> priceBounds (snd e)"
  using assms
proof (induction es arbitrary: store k)
  case Nil
  then show ?case by simp
next
  case (Cons x es)
  obtain store' k' where step: "updateOne stocks st now rnd x (store, k) = (store', k')"
    by (cases "updateOne stocks st now rnd x (store, k)")
  have "\<forall>e \<in> set (fst (updateOne stocks st now rnd (fst x, snd x) (store, k))).
          e \<in> set store \<or> priceBounds (snd e)"
    using Cons.prems by (intro updateOne_priceBounds) auto
  then have one: "\<forall>e \<in> set store'. e \<in> set store \<or> priceBounds (snd e)"
    using step by simp
  have "\<forall>e \<in> set es. 1 / 100 \<le> price (snd e)"
    using Cons.prems by simp
  then have "\<forall>e \<in> set (fst (fold (updateOne stocks st now rnd) es (store', k'))).
               e \<in> set store' \<or> priceBounds (snd e)"
    by (rule Cons.IH)
  then show ?case
    using one step by auto
qed

text \<open>
  The tick keeps the bounds of the quotes it rewrites. Start a simulation tick from a
  store in which every quote has a price of at least one cent, as every positive
  two-decimal price is. Afterwards every quote has a positive price, and every quote
  either is a quote of the store before the tick (the tick skipped the symbol and left
  its record alone) or has \<open>low \<le> price \<le> high\<close>: the tick rounds the price, the high
  and the low alike. So if every quote had \<open>low \<le> price \<le> high\<close> before the tick, every
  quote has it after.
\<close>

lemma tick_price_bounds:
  assumes "\<forall>e \<in> set store. 1 / 100 \<le> price (snd e)"
  shows "(\<forall>e \<in> set (fst (updateSimulatedPrices stocks st now rnd (store, k))).
            0 < price (snd e)
            \<and> (e \<in> set store \<or> (low (snd e) \<le> price (snd e) \<and> price (snd e) \<le> high (snd e))))
       \<and> ((\<forall>e \<in> set store. low (snd e) \<le> price (snd e) \<and> price (snd e) \<le> high (snd e)) \<longrightarrow>
          (\<forall>e \<in> set (fst (updateSimulatedPrices stocks st now rnd (store, k))).
             low (snd e) \<le> price (snd e) \<and> price (snd e) \<le> high (snd e)))"
proof -
  have "\<forall>e \<in> set (fst (fold (updateOne stocks st now rnd) store (store, k))).
          e \<in> set store \<or> priceBounds (snd e)"
    using assms by (rule fold_updateOne_priceBounds)
  then have all: "\<forall>e \<in> set (fst (updateSimulatedPrices stocks st now rnd (store, k))).
          e \<in> set store \<or> priceBounds (snd e)"
    by (simp add: updateSimulatedPrices_def Let_def)
  show ?thesis
  proof (intro conjI ballI impI)
    fix e
    assume e: "e \<in> set (fst (updateSimulatedPrices stocks st now rnd (store, k)))"
    show "0 < price (snd e)"
      using all e assms by (fastforce simp: priceBounds_def)
    show "e \<in> set store \<or> (low (snd e) \<le> price (snd e) \<and> price (snd e) \<le> high (snd e))"
      using all e by (auto simp: priceBounds_def)
  next
    fix e
    assume "\<forall>e \<in> set store. low (snd e) \<le> price (snd e) \<and> price (snd e) \<le> high (snd e)"
      and "e \<in> set (fst (updateSimulatedPrices stocks st now rnd (store, k)))"
    then show "low (snd e) \<le> price (snd e)" "price (snd e) \<le> high (snd e)"
      using all by (auto simp: priceBounds_def)
  qed
qed

lemma tick_price_bounds_example:
  "1 / 100 \<le> price fooQuote
   \<and> fst (updateSimulatedPrices fooStocks defaultSettings mondayMorning halves ([(''FOO.NS'', fooQuote)], 0))
       = [(''FOO.NS'', fooQuote\<lparr>price := 9985 / 100, high := 101, low := 99,
             change := - (15 / 100), changePercent := - (15 / 100), volume := 6025000,
             bid := 998 / 10, ask := 999 / 10, bidSize := 600, askSize := 600,
             lastUpdated := mondayMorning\<rparr>)]
   \<and> (99 :: real) \<le> 9985 / 100 \<and> (9985 / 100 :: real) \<le> 101"
proof -
  have pre: "\<forall>e \<in> set [(''FOO.NS'', fooQuote)]. 1 / 100 \<le> price (snd e)"
    by (simp add: fooQuote_def)
  have run: "fst (updateSimulatedPrices fooStocks defaultSettings mondayMorning halves ([(''FOO.NS'', fooQuote)], 0))
       = [(''FOO.NS'', fooQuote\<lparr>price := 9985 / 100, high := 101, low := 99,
             change := - (15 / 100), changePercent := - (15 / 100), volume := 6025000,
             bid := 998 / 10, ask := 999 / 10, bidSize := 600, askSize := 600,
             lastUpdated := mondayMorning\<rparr>)]"
    by (simp add: updateSimulatedPrices_def updateOne_def Let_def isMarketOpen_def
      defaultSettings_def halves_def fooStocks_def fooEntry_def getVolatility_def sectorVolatility_def
      js_or_def fooQuote_def Math_floor_def toFixed2_def)
  show ?thesis
    using pre run
      tick_price_bounds [OF pre, of fooStocks defaultSettings mondayMorning halves 0]
    by (simp add: fooQuote_def)
qed

section \<open>Initialization and reset\<close>

lemma allocCandle_quotes [simp]:
  "simulatedPrices (snd (allocCandle c s)) = simulatedPrices s"
  by (simp add: allocCandle_def)

lemma allocArray_quotes [simp]:
  "simulatedPrices (snd (allocArray xs s)) = simulatedPrices s"
  by (simp add: allocArray_def)

lemma allocCandles_quotes [simp]:
  "simulatedPrices (snd (allocCandles cs s)) = simulatedPrices s"
proof (induction cs arbitrary: s)
  case Nil
  then show ?case by simp
next
  case (Cons c cs)
  obtain a s' where a: "allocCandle c s = (a, s')"
    by (cases "allocCandle c s")
  obtain as s'' where b: "allocCandles cs s' = (as, s'')"
    by (cases "allocCandles cs s'")
  have "simulatedPrices s'' = simulatedPrices s'"
    using Cons.IH [of s'] b by simp
  moreover have "simulatedPrices s' = simulatedPrices s"
    using allocCandle_quotes [of c s] a by simp
  ultimately show ?case using a b by simp
qed

lemma allocHistory_quotes [simp]:
  "simulatedPrices (snd (allocHistory cs s)) = simulatedPrices s"
proof -
  obtain as s' where a: "allocCandles cs s = (as, s')"
    by (cases "allocCandles cs s")
  have "simulatedPrices s' = simulatedPrices s"
    using allocCandles_quotes [of cs s] a by simp
  then show ?thesis
    using a allocArray_quotes [of as s'] by (simp add: allocHistory_def)
qed

lemma initEntry_quotes:
  "simulatedPrices (fst (initEntry stocks now tz rnd (symb, data) (s, k)))
     = AList.update symb (initialQuote stocks now rnd k symb data) (simulatedPrices s)"
proof -
  define s1 where
    "s1 = s\<lparr>simulatedPrices :=
              AList.update symb (initialQuote stocks now rnd k symb data) (simulatedPrices s)\<rparr>"
  obtain cs k' where g:
    "generateHistoricalData stocks (basePrice data) symb 365 now tz rnd (k + 7) = (cs, k')"
    by (cases "generateHistoricalData stocks (basePrice data) symb 365 now tz rnd (k + 7)")
  obtain arr s2 where h: "allocHistory cs s1 = (arr, s2)"
    by (cases "allocHistory cs s1")
  have "simulatedPrices s2 = simulatedPrices s1"
    using allocHistory_quotes [of cs s1] h by simp
  then show ?thesis
    using g h by (simp add: initEntry_def Let_def s1_def [symmetric]) (simp add: s1_def)
qed

lemma initEntry_quotes':
  "simulatedPrices (fst (initEntry stocks now tz rnd x acc))
     = AList.update (fst x) (initialQuote stocks now rnd (snd acc) (fst x) (snd x))
         (simulatedPrices (fst acc))"
  using initEntry_quotes [of stocks now tz rnd "fst x" "snd x" "fst acc" "snd acc"] by simp

lemma initEntry_previousClose:
  "previousClose (initialQuote stocks now rnd k symb data) = basePrice data"
  by (simp add: initialQuote_def Let_def)

lemma fold_initEntry_other:
  assumes "symb \<notin> fst ` set es"
  shows "map_of (simulatedPrices (fst (fold (initEntry stocks now tz rnd) es acc))) symb
       = map_of (simulatedPrices (fst acc)) symb"
  using assms
proof (induction es arbitrary: acc)
  case Nil
  then show ?case by simp
next
  case (Cons x es)
  have x: "fst x \<noteq> symb" using Cons.prems by auto
  have "map_of (simulatedPrices (fst (initEntry stocks now tz rnd x acc))) symb
      = map_of (simulatedPrices (fst acc)) symb"
    using x by (simp add: initEntry_quotes' update_conv')
  moreover have "symb \<notin> fst ` set es" using Cons.prems by simp
  ultimately show ?case
    using Cons.IH [of "initEntry stocks now tz rnd x acc"] by simp
qed

lemma fold_initEntry_lookup:
  assumes "distinct (map fst es)" and "(symb, d) \<in> set es"
  shows "map_option previousClose
           (map_of (simulatedPrices (fst (fold (initEntry stocks now tz rnd) es acc))) symb)
       = Some (basePrice d)"
  using assms
proof (induction es arbitrary: acc)
  case Nil
  then show ?case by simp
next
  case (Cons x es)
  show ?case
  proof (cases "x = (symb, d)")
    case True
    then have notin: "symb \<notin> fst ` set es"
      using Cons.prems(1) by auto
    have "map_of (simulatedPrices (fst (initEntry stocks now tz rnd (symb, d) acc))) symb
        = Some (initialQuote stocks now rnd (snd acc) symb d)"
      by (simp add: initEntry_quotes' update_conv')
    then show ?thesis
      using True fold_initEntry_other [OF notin, of stocks now tz rnd "initEntry stocks now tz rnd x acc"]
      by (simp add: initEntry_previousClose)
  next
    case False
    then have "(symb, d) \<in> set es" using Cons.prems(2) by simp
    moreover have "distinct (map fst es)" using Cons.prems(1) by simp
    ultimately show ?thesis
      using Cons.IH [of "initEntry stocks now tz rnd x acc"] by simp
  qed
qed

lemma fold_update_distinct:
  assumes "distinct (map fst acc)"
  shows "distinct (map fst (fold (\<lambda>kv. AList.update (fst kv) (snd kv)) es acc))"
  using assms by (induction es arbitrary: acc) (simp_all add: distinct_update)

lemma allStocks_distinct: "distinct (map fst (allStocks stocks indices))"
  unfolding allStocks_def objectLiteral_def by (rule fold_update_distinct) simp

text \<open>
  C6. After the reset operation, whatever the state it is called in, and before any
  tick, the quote stored for a symbol of the merged catalog
  \<^verbatim>\<open>{ ...INDIAN_STOCKS, ...INDICES }\<close> has \<open>previousClose\<close> equal to the base price of
  that catalog entry.
\<close>

theorem reset_previousClose:
  assumes "map_of (allStocks stocks indices) symb = Some d"
  shows "map_option previousClose
           (map_of (simulatedPrices (fst (resetSimulation stocks indices now tz rnd (s, k)))) symb)
       = Some (basePrice d)"
proof -
  have "(symb, d) \<in> set (allStocks stocks indices)"
    using assms by (rule map_of_SomeD)
  then show ?thesis
    unfolding resetSimulation_def initializeSimulatedPrices_def
    using allStocks_distinct by (intro fold_initEntry_lookup)
qed

theorem reset_previousClose_witness:
  "map_of (allStocks fooStocks []) ''FOO.NS'' = Some fooEntry
   \<and> map_option previousClose
        (map_of (simulatedPrices (fst (resetSimulation fooStocks [] mondayMorning 0 halves
           (emptyState, 0)))) ''FOO.NS'') = Some 100"
proof -
  have a: "map_of (allStocks fooStocks []) ''FOO.NS'' = Some fooEntry"
    by (simp add: allStocks_def objectLiteral_def fooStocks_def)
  show ?thesis
    using a reset_previousClose [OF a, of mondayMorning 0 halves emptyState 0]
    by (simp add: fooEntry_def)
qed

section \<open>The price and the day's range after initialization\<close>

text \<open>
  Initialization rounds the price and stores the high and the low as they are. For base
  price 100 and the draws \<open>0.5012, 0, 0, \<dots>\<close> the raw price is 100.006: the stored price
  is 100.01, the stored high and low are 100.006. A tick whose movement draw is 0.9
  skips the symbol.
\<close>

lemma startQuote_fields:
  "price startQuote = 10001 / 100" "high startQuote = 100006 / 1000"
  by (simp_all add: startQuote_def initialQuote_def Let_def fooStocks_def fooEntry_def
      skewedDraws_def getVolatility_def sectorVolatility_def js_or_def toFixed2_def)

lemma skipped_tick:
  "updateSimulatedPrices fooStocks defaultSettings mondayMorning nines ([(''FOO.NS'', q)], 0)
     = ([(''FOO.NS'', q)], 3)"
  by (simp add: updateSimulatedPrices_def updateOne_def Let_def isMarketOpen_def
      defaultSettings_def nines_def fooStocks_def fooEntry_def getVolatility_def sectorVolatility_def
      js_or_def)

lemma start_initial_store:
  "simulatedPrices startState = [(''FOO.NS'', startQuote)]"
proof -
  have all: "allStocks fooStocks [] = [(''FOO.NS'', fooEntry)]"
    by (simp add: allStocks_def objectLiteral_def fooStocks_def)
  show ?thesis
    unfolding startState_def initializeSimulatedPrices_def all
    by (simp add: initEntry_quotes' startQuote_def emptyState_def)
qed

lemma startQuote_low: "low startQuote = 100006 / 1000"
  by (simp add: startQuote_def initialQuote_def Let_def fooStocks_def fooEntry_def
      skewedDraws_def getVolatility_def sectorVolatility_def js_or_def)

lemma skewedDraws_ok: "rng_ok skewedDraws" "rng_ok nines"
  by (simp_all add: rng_ok_def skewedDraws_def nines_def)

lemma start_state_reachable:
  "reachable fooStocks []
     (startState\<lparr>simulatedPrices :=
        fst (updateSimulatedPrices fooStocks defaultSettings mondayMorning nines
               (simulatedPrices startState, 0))\<rparr>)"
  unfolding startState_def
  by (intro reachable.tick reachable.start skewedDraws_ok)

text \<open>
  C1. After a tick, \<open>low \<le> price \<le> high\<close> does not hold of every quote. The store that
  initialization makes for the one-entry catalog under the draws \<open>0.5012, 0, 0, \<dots>\<close>
  holds a quote with price 100.01, high 100.006 and low 100.006; every price in it is
  positive. A tick under the default settings whose draws are all 0.9 skips the symbol,
  so the store after the tick holds the same quote, whose price is above its high. The
  state is a reachable one (\<open>start_state_reachable\<close>).
\<close>

theorem init_price_above_high:
  "simulatedPrices startState = [(''FOO.NS'', startQuote)]
   \<and> price startQuote = 10001 / 100
   \<and> high startQuote = 100006 / 1000
   \<and> low startQuote = 100006 / 1000
   \<and> fst (updateSimulatedPrices fooStocks defaultSettings mondayMorning nines
            (simulatedPrices startState, 0))
       = [(''FOO.NS'', startQuote)]
   \<and> 0 < price startQuote
   \<and> high startQuote < price startQuote"
proof -
  have store: "simulatedPrices startState = [(''FOO.NS'', startQuote)]"
    by (rule start_initial_store)
  have skipped: "fst (updateSimulatedPrices fooStocks defaultSettings mondayMorning nines
            (simulatedPrices startState, 0))
       = [(''FOO.NS'', startQuote)]"
    unfolding store by (simp add: skipped_tick)
  have positive: "0 < price startQuote"
    by (simp add: startQuote_fields)
  have above: "high startQuote < price startQuote"
    by (simp add: startQuote_fields)
  show ?thesis
    by (intro conjI store startQuote_fields startQuote_low skipped positive above)
qed

section \<open>The spread\<close>

lemma getVolatility_bounds:
  "15 / 1000 \<le> getVolatility stocks symb \<and> getVolatility stocks symb \<le> 45 / 1000"
proof -
  have tab: "15 / 1000 \<le> js_or v (2 / 100) \<and> js_or v (2 / 100) \<le> 45 / 1000"
    if "map_of sectorVolatility s = Some v" for s v
    using that by (auto simp: sectorVolatility_def js_or_def split: if_splits)
  show ?thesis
    unfolding getVolatility_def
    by (auto split: option.splits dest: tab)
qed

lemma initial_price_positive:
  assumes bp: "0 < basePrice d" and r: "0 \<le> rnd k" "rnd k < 1"
  shows "0 < basePrice d + (rnd k - 1 / 2) * 2 * getVolatility stocks symb * basePrice d"
proof -
  define vol where "vol = getVolatility stocks symb"
  have vol: "0 \<le> vol" "vol \<le> 45 / 1000"
    using getVolatility_bounds [of stocks symb] by (simp_all add: vol_def)
  have vb: "0 \<le> vol * basePrice d" "vol * basePrice d \<le> 45 / 1000 * basePrice d"
    using vol bp by (simp_all add: mult_right_mono)
  have "- 1 \<le> (rnd k - 1 / 2) * 2" using r by simp
  then have "- 1 * (vol * basePrice d) \<le> (rnd k - 1 / 2) * 2 * (vol * basePrice d)"
    using vb(1) by (rule mult_right_mono)
  then have "- (45 / 1000 * basePrice d) \<le> (rnd k - 1 / 2) * 2 * vol * basePrice d"
    using vb(2) by (simp add: mult.assoc)
  then show ?thesis
    using bp unfolding vol_def by linarith
qed

lemma spread_of_price:
  assumes "0 \<le> p"
  shows "toFixed2 (p * (9995 / 10000)) \<le> toFixed2 p \<and> toFixed2 p \<le> toFixed2 (p * (10005 / 10000))
       \<and> 0 \<le> toFixed2 p"
proof -
  have "p * (9995 / 10000) \<le> p" "p \<le> p * (10005 / 10000)"
    using assms by simp_all
  then show ?thesis
    using assms by (simp add: toFixed2_mono toFixed2_nonneg)
qed

lemma initialQuote_spreadOk:
  assumes "0 < basePrice d" and "rng_ok rnd"
  shows "spreadOk (initialQuote stocks now rnd k symb d)"
proof -
  define p where
    "p = basePrice d + (rnd k - 1 / 2) * 2 * getVolatility stocks symb * basePrice d"
  have "0 \<le> p"
    unfolding p_def
    using initial_price_positive [of d rnd k stocks symb] assms
    by (simp add: rng_ok_def less_imp_le)
  then have sp: "toFixed2 (p * (9995 / 10000)) \<le> toFixed2 p"
    "toFixed2 p \<le> toFixed2 (p * (10005 / 10000))" "0 \<le> toFixed2 p"
    using spread_of_price [of p] by simp_all
  have "price (initialQuote stocks now rnd k symb d) = toFixed2 p"
    "bid (initialQuote stocks now rnd k symb d) = toFixed2 (p * (9995 / 10000))"
    "ask (initialQuote stocks now rnd k symb d) = toFixed2 (p * (10005 / 10000))"
    by (simp_all add: initialQuote_def Let_def p_def)
  then show ?thesis
    using sp by (simp add: spreadOk_def)
qed

lemma updateOne_spreadOk:
  assumes q: "0 \<le> price q"
  shows "\<forall>e \<in> set (fst (updateOne stocks st now rnd (symb, q) (store, k))).
           e \<in> set store \<or> spreadOk (snd e)"
proof
  fix e
  assume e: "e \<in> set (fst (updateOne stocks st now rnd (symb, q) (store, k)))"
  define newPrice where
    "newPrice = max (price q + (if (rnd (k + 1) - 1 / 2) * 2 > 0
         then priceTickSize st * (Math_floor (rnd k * maxTickMultiplier st) + 1)
         else - (priceTickSize st * (Math_floor (rnd k * maxTickMultiplier st) + 1))))
       (price q * (1 / 2))"
  have "0 \<le> newPrice"
    unfolding newPrice_def using q by (simp add: le_max_iff_disj)
  then have sp: "toFixed2 (newPrice * (9995 / 10000)) \<le> toFixed2 newPrice"
    "toFixed2 newPrice \<le> toFixed2 (newPrice * (10005 / 10000))" "0 \<le> toFixed2 newPrice"
    using spread_of_price [of newPrice] by simp_all
  from e consider "e \<in> set store"
    | q' where "e = (symb, q')" "price q' = toFixed2 newPrice"
        "bid q' = toFixed2 (newPrice * (9995 / 10000))"
        "ask q' = toFixed2 (newPrice * (10005 / 10000))"
    unfolding updateOne_def Let_def newPrice_def
    by (auto split: if_splits dest!: in_update_cases)
  then show "e \<in> set store \<or> spreadOk (snd e)"
  proof cases
    case 1
    then show ?thesis by simp
  next
    case 2
    then show ?thesis using sp by (simp add: spreadOk_def)
  qed
qed

lemma fold_updateOne_spreadOk:
  assumes "\<forall>e \<in> set es. 0 \<le> price (snd e)"
  shows "\<forall>e \<in> set (fst (fold (updateOne stocks st now rnd) es (store, k))).
           e \<in> set store \<or> spreadOk (snd e)"
  using assms
proof (induction es arbitrary: store k)
  case Nil
  then show ?case by simp
next
  case (Cons x es)
  obtain store' k' where step: "updateOne stocks st now rnd x (store, k) = (store', k')"
    by (cases "updateOne stocks st now rnd x (store, k)")
  have "\<forall>e \<in> set (fst (updateOne stocks st now rnd (fst x, snd x) (store, k))).
          e \<in> set store \<or> spreadOk (snd e)"
    using Cons.prems by (intro updateOne_spreadOk) auto
  then have one: "\<forall>e \<in> set store'. e \<in> set store \<or> spreadOk (snd e)"
    using step by simp
  have "\<forall>e \<in> set es. 0 \<le> price (snd e)"
    using Cons.prems by simp
  then have "\<forall>e \<in> set (fst (fold (updateOne stocks st now rnd) es (store', k'))).
               e \<in> set store' \<or> spreadOk (snd e)"
    by (rule Cons.IH)
  then show ?case
    using one step by auto
qed

lemma tick_spreadOk:
  assumes "\<forall>e \<in> set store. spreadOk (snd e)"
  shows "\<forall>e \<in> set (fst (updateSimulatedPrices stocks st now rnd (store, k))). spreadOk (snd e)"
proof -
  have "\<forall>e \<in> set store. 0 \<le> price (snd e)"
    using assms by (simp add: spreadOk_def)
  then have "\<forall>e \<in> set (fst (fold (updateOne stocks st now rnd) store (store, k))).
          e \<in> set store \<or> spreadOk (snd e)"
    by (rule fold_updateOne_spreadOk)
  then show ?thesis
    using assms by (auto simp: updateSimulatedPrices_def Let_def)
qed

lemma fold_initEntry_spreadOk:
  assumes "\<forall>x \<in> set es. 0 < basePrice (snd x)" and "rng_ok rnd"
    and "\<forall>e \<in> set (simulatedPrices (fst acc)). spreadOk (snd e)"
  shows "\<forall>e \<in> set (simulatedPrices (fst (fold (initEntry stocks now tz rnd) es acc))).
           spreadOk (snd e)"
  using assms
proof (induction es arbitrary: acc)
  case Nil
  then show ?case by simp
next
  case (Cons x es)
  have "spreadOk (initialQuote stocks now rnd (snd acc) (fst x) (snd x))"
    using Cons.prems(1,2) by (intro initialQuote_spreadOk) simp_all
  then have "\<forall>e \<in> set (simulatedPrices (fst (initEntry stocks now tz rnd x acc))). spreadOk (snd e)"
    using Cons.prems(3) by (auto simp: initEntry_quotes' dest!: in_update_cases)
  moreover have "\<forall>x \<in> set es. 0 < basePrice (snd x)"
    using Cons.prems(1) by simp
  ultimately show ?case
    using Cons.IH [of "initEntry stocks now tz rnd x acc"] Cons.prems(2) by simp
qed

lemma fold_update_subset:
  "set (fold (\<lambda>kv. AList.update (fst kv) (snd kv)) es acc) \<subseteq> set es \<union> set acc"
proof (induction es arbitrary: acc)
  case Nil
  then show ?case by simp
next
  case (Cons x es)
  have "set (AList.update (fst x) (snd x) acc) \<subseteq> insert x (set acc)"
    using in_update_cases [of _ "fst x" "snd x" acc] by auto
  then show ?case
    using Cons.IH [of "AList.update (fst x) (snd x) acc"] by auto
qed

lemma allStocks_positive:
  assumes "catalogOk stocks indices"
  shows "\<forall>x \<in> set (allStocks stocks indices). 0 < basePrice (snd x)"
proof -
  have "set (allStocks stocks indices) \<subseteq> set (stocks @ indices)"
    unfolding allStocks_def objectLiteral_def
    using fold_update_subset [of "stocks @ indices" "[]"] by simp
  then show ?thesis
    using assms by (auto simp: catalogOk_def list_all_iff)
qed

lemma init_spreadOk:
  assumes "catalogOk stocks indices" and "rng_ok rnd"
    and "\<forall>e \<in> set (simulatedPrices s). spreadOk (snd e)"
  shows "\<forall>e \<in> set (simulatedPrices (fst (initializeSimulatedPrices stocks indices now tz rnd (s, k)))).
           spreadOk (snd e)"
  unfolding initializeSimulatedPrices_def
  using allStocks_positive [OF assms(1)] assms(2,3)
  by (intro fold_initEntry_spreadOk) simp_all

lemma serveToday_quotes [simp]:
  "simulatedPrices (serveToday history currentStock now s) = simulatedPrices s"
  by (simp add: serveToday_def Let_def allocCandle_def arraySet_def arrayPush_def
      split: option.splits)

lemma getHistory_quotes [simp]:
  "simulatedPrices (snd (getHistory s now symbolParam rangeQuery)) = simulatedPrices s"
  by (simp add: getHistory_def Let_def arrayFilter_def allocArray_def
      split: option.splits)

lemma reachable_spreadOk:
  assumes "catalogOk stocks indices" and "reachable stocks indices s"
  shows "\<forall>e \<in> set (simulatedPrices s). spreadOk (snd e)"
  using assms(2)
proof (induction rule: reachable.induct)
  case (start rnd now tz k)
  then show ?case
    using assms(1) by (intro init_spreadOk) (simp_all add: emptyState_def)
next
  case (reset s rnd now tz k)
  then show ?case
    unfolding resetSimulation_def using assms(1) by (intro init_spreadOk)
next
  case (tick s rnd st now k)
  then show ?case
    using tick_spreadOk [of "simulatedPrices s" stocks st now rnd k] by simp
next
  case (history s now symbolParam rangeQuery)
  then show ?case by simp
qed

text \<open>
  C9. After initialization and after every simulation tick, that is, in every reachable
  state, every stored quote has \<open>bid \<le> price \<le> ask\<close>, for a catalog of positive base
  prices (the catalog of the source is one, \<open>source_catalogOk\<close> below): bid, price and
  ask are the two-decimal roundings of \<open>0.9995 p\<close>, \<open>p\<close> and \<open>1.0005 p\<close> for one raw price
  \<open>p \<ge> 0\<close>, and the rounding is monotone.
\<close>

theorem reachable_bid_price_ask:
  assumes "catalogOk stocks indices" and "reachable stocks indices s"
  shows "\<forall>e \<in> set (simulatedPrices s). bid (snd e) \<le> price (snd e) \<and> price (snd e) \<le> ask (snd e)"
  using reachable_spreadOk [OF assms] by (simp add: spreadOk_def)

lemma fooQuote_initial:
  "initialQuote fooStocks mondayMorning halves 0 ''FOO.NS'' fooEntry = fooQuote"
  by (simp add: initialQuote_def Let_def fooStocks_def fooEntry_def fooQuote_def halves_def
      mondayMorning_def getVolatility_def sectorVolatility_def js_or_def toFixed2_def
      Math_floor_def)

lemma foo_initial_store:
  "simulatedPrices (fst (initializeSimulatedPrices fooStocks [] mondayMorning 0 halves (emptyState, 0)))
     = [(''FOO.NS'', fooQuote)]"
proof -
  have all: "allStocks fooStocks [] = [(''FOO.NS'', fooEntry)]"
    by (simp add: allStocks_def objectLiteral_def fooStocks_def)
  show ?thesis
    unfolding initializeSimulatedPrices_def all
    by (simp add: initEntry_quotes' fooQuote_initial emptyState_def)
qed

theorem reachable_bid_price_ask_witness:
  "catalogOk fooStocks [] \<and> rng_ok halves
   \<and> simulatedPrices (fst (initializeSimulatedPrices fooStocks [] mondayMorning 0 halves (emptyState, 0)))
       = [(''FOO.NS'', fooQuote)]
   \<and> bid fooQuote \<le> price fooQuote \<and> price fooQuote \<le> ask fooQuote"
proof -
  have c: "catalogOk fooStocks []"
    by (simp add: catalogOk_def fooStocks_def fooEntry_def)
  have r: "rng_ok halves"
    by (simp add: rng_ok_def halves_def)
  have "reachable fooStocks []
      (fst (initializeSimulatedPrices fooStocks [] mondayMorning 0 halves (emptyState, 0)))"
    using r by (rule reachable.start)
  then show ?thesis
    using c r foo_initial_store reachable_bid_price_ask [OF c]
    by fastforce
qed

section \<open>The catalog of the source has positive base prices\<close>

lemma stocks_entries_positive:
  "list_all (\<lambda>kv. 0 < basePrice (snd kv)) INDIAN_STOCKS_entries"
  by (simp add: INDIAN_STOCKS_entries_def stockEntry_def)

lemma indices_entries_positive:
  "list_all (\<lambda>kv. 0 < basePrice (snd kv)) INDICES_entries"
  by (simp add: INDICES_entries_def indexEntry_def)

lemma objectLiteral_subset: "set (objectLiteral entries) \<subseteq> set entries"
  unfolding objectLiteral_def using fold_update_subset [of entries "[]"] by simp

lemma source_catalogOk: "catalogOk INDIAN_STOCKS INDICES"
proof -
  have "\<forall>kv \<in> set INDIAN_STOCKS. 0 < basePrice (snd kv)"
    using stocks_entries_positive objectLiteral_subset [of INDIAN_STOCKS_entries]
    by (auto simp: INDIAN_STOCKS_def list_all_iff)
  moreover have "\<forall>kv \<in> set INDICES. 0 < basePrice (snd kv)"
    using indices_entries_positive objectLiteral_subset [of INDICES_entries]
    by (auto simp: INDICES_def list_all_iff)
  ultimately show ?thesis
    by (auto simp: catalogOk_def list_all_iff)
qed

text \<open>No sector of the catalog names a property that an object literal inherits.\<close>

lemma stocks_sectors_own:
  "list_all (\<lambda>kv. case e_sector (snd kv) of None \<Rightarrow> True | Some s \<Rightarrow> s \<notin> set objectPrototypeKeys)
     INDIAN_STOCKS_entries"
  by (simp add: INDIAN_STOCKS_entries_def stockEntry_def objectPrototypeKeys_def)

section \<open>The delta of a day of history\<close>

lemma dayChange_eq:
  "dayChange bp (vol * 2) cp r = (2 * r - 1) * vol * cp + (bp - cp) * (1 / 1000)"
  by (simp add: dayChange_def Let_def algebra_simps)

text \<open>
  C2 (amended). On a kept day the per-day delta is
  \<open>(2r - 1) * volatilityOf(sector) * currentPrice + trend\<close> with
  \<open>trend = (basePrice - currentPrice) * 0.001\<close>, for the draw \<open>r\<close> in \<open>[0, 1)\<close>: the uniform
  draw in \<open>[-1, 1]\<close> times the sector's volatility, once and not twice. The price carried
  to the next day is \<open>max(currentPrice + delta, currentPrice * 0.5)\<close>; the candle's open is
  the current price and its close the carried price, both rounded to two decimals.
\<close>

theorem history_day_delta:
  assumes "getDay tz (now - int i * msPerDay) \<noteq> 0" and "getDay tz (now - int i * msPerDay) \<noteq> 6"
  shows "dayChange bp (getVolatility stocks symb * 2) cp (rnd k)
           = (2 * rnd k - 1) * getVolatility stocks symb * cp + (bp - cp) * (1 / 1000)
       \<and> (\<exists>c. historyDay bp (getVolatility stocks symb * 2) now tz rnd i (cp, k)
                 = (Some c,
                    max (cp + dayChange bp (getVolatility stocks symb * 2) cp (rnd k)) (cp * (1 / 2)),
                    k + 4)
              \<and> c_open c = toFixed2 cp
              \<and> c_close c
                  = toFixed2 (max (cp + dayChange bp (getVolatility stocks symb * 2) cp (rnd k))
                                  (cp * (1 / 2))))"
  using assms by (simp add: dayChange_eq historyDay_def Let_def)

lemma foo_vol: "getVolatility fooStocks ''FOO.NS'' = 25 / 1000"
  by (simp add: getVolatility_def fooStocks_def fooEntry_def sectorVolatility_def js_or_def)

lemma monday_kept: "getDay 0 (mondayMorning - int 0 * msPerDay) = 1"
  by (simp add: getDay_def getUTCDay_def mondayMorning_def msPerDay_def)

text \<open>
  With base price 100, current price 100, the IT sector (volatility 0.025) and the draw
  0.75 the code's delta is 1.25 and the day closes at 101.25; the formula of the claim
  gives 2.5 and 102.5.
\<close>

theorem history_day_delta_counterexample:
  "dayChange 100 (getVolatility fooStocks ''FOO.NS'' * 2) 100 (threeQuarters 0) = 5 / 4
   \<and> claimedDelta 100 (getVolatility fooStocks ''FOO.NS'') 100 (threeQuarters 0) = 5 / 2
   \<and> fst (snd (historyDay 100 (getVolatility fooStocks ''FOO.NS'' * 2) mondayMorning 0
                 threeQuarters 0 (100, 0))) = 405 / 4
   \<and> max (100 + claimedDelta 100 (getVolatility fooStocks ''FOO.NS'') 100 (threeQuarters 0))
          (100 * (1 / 2)) = 205 / 2"
  using monday_kept
  by (simp add: foo_vol dayChange_def claimedDelta_def threeQuarters_def historyDay_def Let_def)

theorem history_day_delta_witness:
  "getDay 0 (mondayMorning - int 0 * msPerDay) \<noteq> 0
   \<and> getDay 0 (mondayMorning - int 0 * msPerDay) \<noteq> 6
   \<and> dayChange 100 (getVolatility fooStocks ''FOO.NS'' * 2) 100 (threeQuarters 0) = 5 / 4
   \<and> fst (snd (historyDay 100 (getVolatility fooStocks ''FOO.NS'' * 2) mondayMorning 0
                 threeQuarters 0 (100, 0))) = 405 / 4"
proof -
  have a: "getDay 0 (mondayMorning - int 0 * msPerDay) \<noteq> 0"
    and b: "getDay 0 (mondayMorning - int 0 * msPerDay) \<noteq> 6"
    using monday_kept by simp_all
  show ?thesis
    using a b history_day_delta [OF a b, of 100 fooStocks "''FOO.NS''" 100 threeQuarters 0]
    by (auto simp: foo_vol threeQuarters_def)
qed

section \<open>The generated history\<close>

lemma historyDay_skipped:
  assumes "getDay tz (now - int i * msPerDay) = 0 \<or> getDay tz (now - int i * msPerDay) = 6"
  shows "historyDay bp vol now tz rnd i (cp, k) = (None, cp, k)"
  using assms by (auto simp: historyDay_def Let_def)

lemma historyDay_kept:
  assumes kept: "getDay tz (now - int i * msPerDay) \<noteq> 0" "getDay tz (now - int i * msPerDay) \<noteq> 6"
    and cp: "0 \<le> cp" and vol: "0 \<le> vol" and rnd: "rng_ok rnd"
  shows "\<exists>c cp'. historyDay bp vol now tz rnd i (cp, k) = (Some c, cp', k + 4)
           \<and> 0 \<le> cp' \<and> candleOk c \<and> timestamp c = now - int i * msPerDay
           \<and> date c = isoDate (now - int i * msPerDay)"
proof -
  define cl where "cl = max (cp + dayChange bp vol cp (rnd k)) (cp * (1 / 2))"
  define hi where "hi = max cp cl * (1 + rnd (k + 1) * vol * (1 / 2))"
  define lo where "lo = min cp cl * (1 - rnd (k + 2) * vol * (1 / 2))"
  have cl: "0 \<le> cl"
    unfolding cl_def using cp by (simp add: le_max_iff_disj)
  have t1: "0 \<le> rnd (k + 1) * vol * (1 / 2)" and t2: "0 \<le> rnd (k + 2) * vol * (1 / 2)"
    using rnd vol by (simp_all add: rng_ok_def)
  have mx: "0 \<le> max cp cl" and mn: "0 \<le> min cp cl"
    using cp cl by simp_all
  have "max cp cl * 1 \<le> hi"
    unfolding hi_def using mx t1 by (intro mult_left_mono) simp_all
  then have hi: "cp \<le> hi" "cl \<le> hi" by simp_all
  have "lo \<le> min cp cl * 1"
    unfolding lo_def using mn t2 by (intro mult_left_mono) simp_all
  then have lo: "lo \<le> cp" "lo \<le> cl" by simp_all
  have ok: "toFixed2 lo \<le> toFixed2 cp" "toFixed2 cp \<le> toFixed2 hi"
    "toFixed2 lo \<le> toFixed2 cl" "toFixed2 cl \<le> toFixed2 hi"
    using hi lo by (simp_all add: toFixed2_mono)
  have "historyDay bp vol now tz rnd i (cp, k)
      = (Some \<lparr>date = isoDate (now - int i * msPerDay), timestamp = now - int i * msPerDay,
                c_open = toFixed2 cp, c_high = toFixed2 hi, c_low = toFixed2 lo,
                c_close = toFixed2 cl,
                c_volume = Math_floor (rnd (k + 3) * 10000000) + 500000\<rparr>, cl, k + 4)"
    using kept by (simp add: historyDay_def Let_def cl_def hi_def lo_def)
  then show ?thesis
    using cl ok by (simp add: candleOk_def)
qed

lemma historyLoop_Suc_fst:
  "fst (historyLoop bp vol now tz rnd (Suc i) acc)
     = (case fst (historyDay bp vol now tz rnd (Suc i) acc) of None \<Rightarrow> [] | Some x \<Rightarrow> [x])
       @ fst (historyLoop bp vol now tz rnd i (snd (historyDay bp vol now tz rnd (Suc i) acc)))"
  by (simp split: prod.splits)

lemma historyLoop_series:
  assumes "0 \<le> cp" and "0 \<le> vol" and "rng_ok rnd"
  shows "sorted_wrt (<) (map timestamp (fst (historyLoop bp vol now tz rnd i (cp, k))))
       \<and> (\<forall>c \<in> set (fst (historyLoop bp vol now tz rnd i (cp, k))).
            candleOk c \<and> getDay tz (timestamp c) \<noteq> 0 \<and> getDay tz (timestamp c) \<noteq> 6
            \<and> date c = isoDate (timestamp c) \<and> now - int i * msPerDay \<le> timestamp c)"
  using assms(1)
proof (induction i arbitrary: cp k)
  case 0
  show ?case
  proof (cases "getDay tz (now - int 0 * msPerDay) = 0 \<or> getDay tz (now - int 0 * msPerDay) = 6")
    case True
    then show ?thesis
      using historyDay_skipped [OF True, of bp vol rnd cp k] by simp
  next
    case False
    then obtain c cp' where
      "historyDay bp vol now tz rnd 0 (cp, k) = (Some c, cp', k + 4)" "candleOk c"
      "timestamp c = now - int 0 * msPerDay" "date c = isoDate (now - int 0 * msPerDay)"
      using historyDay_kept [of tz now 0 cp vol rnd bp k] 0 assms(2,3) by blast
    then show ?thesis using False by simp
  qed
next
  case (Suc i)
  have step: "now - int (Suc i) * msPerDay < now - int i * msPerDay"
    by (simp add: msPerDay_def)
  show ?case
  proof (cases "getDay tz (now - int (Suc i) * msPerDay) = 0
      \<or> getDay tz (now - int (Suc i) * msPerDay) = 6")
    case True
    have "\<forall>c \<in> set (fst (historyLoop bp vol now tz rnd i (cp, k))).
        now - int (Suc i) * msPerDay \<le> timestamp c"
      using Suc.IH [OF Suc.prems, of k] step by fastforce
    then show ?thesis
      using historyDay_skipped [OF True, of bp vol rnd cp k] Suc.IH [OF Suc.prems, of k]
      by (simp add: historyLoop_Suc_fst del: historyLoop.simps)
  next
    case False
    then obtain c cp' where c:
      "historyDay bp vol now tz rnd (Suc i) (cp, k) = (Some c, cp', k + 4)" "0 \<le> cp'"
      "candleOk c" "timestamp c = now - int (Suc i) * msPerDay"
      "date c = isoDate (now - int (Suc i) * msPerDay)"
      using historyDay_kept [of tz now "Suc i" cp vol rnd bp k] Suc.prems assms(2,3) by blast
    note ih = Suc.IH [OF c(2), of "k + 4"]
    have later: "\<forall>x \<in> set (fst (historyLoop bp vol now tz rnd i (cp', k + 4))).
        timestamp c < timestamp x \<and> now - int (Suc i) * msPerDay \<le> timestamp x"
      using ih step c(4) by fastforce
    show ?thesis
      using c False ih later by (simp add: historyLoop_Suc_fst del: historyLoop.simps)
  qed
qed

text \<open>
  For a base price that is not negative, every series the synthesizer returns has
  strictly ascending timestamps, no candle on a Saturday or Sunday of the server's local
  calendar, and open and close within low and high in every candle.
\<close>

lemma history_series:
  assumes "0 \<le> bp" and "rng_ok rnd"
  shows "sorted_wrt (<) (map timestamp (fst (generateHistoricalData stocks bp symb days now tz rnd k)))
       \<and> (\<forall>c \<in> set (fst (generateHistoricalData stocks bp symb days now tz rnd k)).
            candleOk c \<and> getDay tz (timestamp c) \<noteq> 0 \<and> getDay tz (timestamp c) \<noteq> 6
            \<and> date c = isoDate (timestamp c))"
proof -
  have "0 \<le> bp * (7 / 10 + rnd k * (4 / 10))"
    using assms by (simp add: rng_ok_def)
  moreover have "0 \<le> getVolatility stocks symb * 2"
    using getVolatility_bounds [of stocks symb] by simp
  ultimately show ?thesis
    unfolding generateHistoricalData_def Let_def
    using historyLoop_series [of _ _ rnd bp now tz days "k + 1"] assms(2) by blast
qed

text \<open>On a server whose local time is UTC the date of a candle is its local day.\<close>

lemma history_series_utc:
  assumes "0 \<le> bp" and "rng_ok rnd"
    and "c \<in> set (fst (generateHistoricalData stocks bp symb days now 0 rnd k))"
  shows "weekdayOfDate (date c) \<noteq> 0 \<and> weekdayOfDate (date c) \<noteq> 6"
proof -
  have "getDay 0 (timestamp c) \<noteq> 0 \<and> getDay 0 (timestamp c) \<noteq> 6 \<and> date c = isoDate (timestamp c)"
    using history_series [OF assms(1,2), of stocks symb days now 0 k] assms(3) by blast
  then show ?thesis
    by (simp add: getDay_def getUTCDay_def weekdayOfDate_def isoDate_def)
qed

lemma historyLoop_last:
  assumes "getDay tz now \<noteq> 0" and "getDay tz now \<noteq> 6"
  shows "fst (historyLoop bp vol now tz rnd i acc) \<noteq> []
       \<and> date (last (fst (historyLoop bp vol now tz rnd i acc))) = isoDate now"
proof (induction i arbitrary: acc)
  case 0
  show ?case
    using assms by (simp add: historyDay_def Let_def split: prod.splits)
next
  case (Suc i)
  show ?case
    using Suc.IH [of "snd (historyDay bp vol now tz rnd (Suc i) acc)"]
    by (simp add: historyLoop_Suc_fst del: historyLoop.simps)
qed

text \<open>
  C7. The claim also asks that no candle is dated on a Saturday or Sunday. The weekend
  test reads the local day (\<^verbatim>\<open>getDay()\<close>), the \<open>date\<close> field is the UTC date
  (\<^verbatim>\<open>toISOString()\<close>). On a server whose clock is set to India Standard Time, a series
  generated on Monday at 02:00 ends with a candle kept as Monday's and dated Sunday
  2026-02-01.
\<close>

theorem history_weekend_date:
  "getDay indiaOffset mondayTwoAmIndia = 1
   \<and> fst (generateHistoricalData fooStocks 100 ''FOO.NS'' 365 mondayTwoAmIndia indiaOffset halves 0) \<noteq> []
   \<and> weekdayOfDate
       (date (last (fst (generateHistoricalData fooStocks 100 ''FOO.NS'' 365 mondayTwoAmIndia
                           indiaOffset halves 0)))) = 0"
proof -
  have d: "getDay indiaOffset mondayTwoAmIndia = 1"
    by (simp add: getDay_def getUTCDay_def indiaOffset_def mondayTwoAmIndia_def msPerDay_def)
  have w: "weekdayOfDate (isoDate mondayTwoAmIndia) = 0"
    by (simp add: weekdayOfDate_def isoDate_def mondayTwoAmIndia_def msPerDay_def)
  have "getDay indiaOffset mondayTwoAmIndia \<noteq> 0" "getDay indiaOffset mondayTwoAmIndia \<noteq> 6"
    using d by simp_all
  then show ?thesis
    unfolding generateHistoricalData_def Let_def
    using historyLoop_last [of indiaOffset mondayTwoAmIndia] d w by simp
qed

section \<open>The settings update and the timer\<close>

lemma applyBody_empty: "applyBody emptyBody st = st"
  by (simp add: applyBody_def emptyBody_def)

lemma startPriceUpdates_calls:
  "timerCalls (startPriceUpdates e)
     = timerCalls e
       @ (case updateIntervalId e of None \<Rightarrow> [] | Some t \<Rightarrow> [ClearInterval t])
       @ [SetInterval (nextTimer e)
            (max 500 (updateInterval (simulationSettings e) / speed (simulationSettings e)))]"
  by (simp add: startPriceUpdates_def Let_def split: option.splits)

text \<open>
  C3 (amended). A settings update with an empty body leaves every field of the settings
  unchanged. It does cancel the armed timer and arm a new one, as every settings update
  does, whether a field was accepted or not: the handler calls
  \<^verbatim>\<open>startPriceUpdates()\<close> unconditionally. The new timer has the interval
  \<open>max(500, updateInterval / speed)\<close> of the settings after the update, which for the empty
  body is the interval it had.
\<close>

theorem put_empty_settings:
  "simulationSettings (putSettings emptyBody e) = simulationSettings e
   \<and> updateIntervalId (putSettings emptyBody e) = Some (nextTimer e)
   \<and> timerCalls (putSettings emptyBody e)
       = timerCalls e
         @ (case updateIntervalId e of None \<Rightarrow> [] | Some t \<Rightarrow> [ClearInterval t])
         @ [SetInterval (nextTimer e)
              (max 500 (updateInterval (simulationSettings e) / speed (simulationSettings e)))]
   \<and> timerCalls (putSettings body e)
       = timerCalls e
         @ (case updateIntervalId e of None \<Rightarrow> [] | Some t \<Rightarrow> [ClearInterval t])
         @ [SetInterval (nextTimer e)
              (max 500 (updateInterval (applyBody body (simulationSettings e))
                        / speed (applyBody body (simulationSettings e))))]"
  by (simp add: putSettings_def applyBody_empty startPriceUpdates_calls)
    (simp add: startPriceUpdates_def Let_def)

text \<open>
  After the module has loaded one timer is armed. An empty update clears it and arms a
  second one.
\<close>

theorem put_empty_settings_counterexample:
  "timerCalls initialEngine = [SetInterval 0 2000]
   \<and> updateIntervalId initialEngine = Some 0
   \<and> timerCalls (putSettings emptyBody initialEngine)
       = [SetInterval 0 2000, ClearInterval 0, SetInterval 1 2000]
   \<and> updateIntervalId (putSettings emptyBody initialEngine) = Some 1"
  by (simp add: putSettings_def applyBody_empty initialEngine_def startPriceUpdates_def Let_def
      defaultSettings_def)

section \<open>Reading history\<close>

lemma map_filter_filter:
  "List.map_filter f (filter (\<lambda>a. case f a of None \<Rightarrow> False | Some c \<Rightarrow> P c) xs)
     = filter P (List.map_filter f xs)"
  by (induction xs) (auto split: option.splits)

lemma map_filter_all_some:
  assumes "\<forall>a \<in> set xs. f a \<noteq> None"
  shows "List.map_filter f xs = map (\<lambda>a. the (f a)) xs"
  using assms by (induction xs) (auto split: option.splits)

lemma map_filter_cong_on:
  assumes "\<forall>a \<in> set xs. f a = g a"
  shows "List.map_filter f xs = List.map_filter g xs"
  using assms by (induction xs) (auto split: option.splits)

lemma readArray_filter:
  assumes "arrayFilter P arr s = (history, s1)"
  shows "history = nextAddr s"
    and "arrayElems s1 history
         = filter (\<lambda>a. case candles s a of None \<Rightarrow> False | Some c \<Rightarrow> P c) (arrayElems s arr)"
    and "readArray s1 history = filter P (readArray s arr)"
    and "candles s1 = candles s" and "nextAddr s1 = nextAddr s + 1"
    and "simulatedPrices s1 = simulatedPrices s" and "priceHistory s1 = priceHistory s"
    and "\<forall>a. a \<noteq> nextAddr s \<longrightarrow> arrays s1 a = arrays s a"
  using assms
  by (auto simp: arrayFilter_def allocArray_def readArray_def arrayElems_def map_filter_filter)

lemma serveToday_empty:
  assumes "arrayElems s history = []"
  shows "serveToday history q now s = s"
  using assms by (simp add: serveToday_def Let_def)

lemma serveToday_nonempty:
  assumes "arrayElems s history = xs" and "xs \<noteq> []" and "candles s (last xs) = Some lc"
  shows "serveToday history q now s
       = (if date lc = isoDate now
          then s\<lparr>candles := (candles s)(nextAddr s \<mapsto> overlayCandle lc q),
                 nextAddr := nextAddr s + 1,
                 arrays := (arrays s)(history \<mapsto> xs[length xs - 1 := nextAddr s])\<rparr>
          else s\<lparr>candles := (candles s)(nextAddr s \<mapsto> todayCandle q now),
                 nextAddr := nextAddr s + 1,
                 arrays := (arrays s)(history \<mapsto> xs @ [nextAddr s])\<rparr>)"
proof -
  have el: "arrayElems (s\<lparr>candles := m, nextAddr := k\<rparr>) history = xs" for m k
    using assms(1) by (simp add: arrayElems_def)
  have "candles s (arrayElems s history ! (length (arrayElems s history) - 1)) = Some lc"
    using assms by (simp add: last_conv_nth)
  then show ?thesis
    using assms(1,2)
    by (simp add: serveToday_def Let_def allocCandle_def arraySet_def arrayPush_def el)
qed

lemma serveToday_view:
  assumes elems: "\<forall>a \<in> set (arrayElems s history). candles s a \<noteq> None \<and> a < nextAddr s"
  shows "readArray (serveToday history q now s) history = servedView (readArray s history) q now"
proof -
  define xs where "xs = arrayElems s history"
  define g where "g = (\<lambda>a. the (candles s a))"
  have some: "\<forall>a \<in> set xs. candles s a \<noteq> None" and below: "\<forall>a \<in> set xs. a < nextAddr s"
    using elems by (simp_all add: xs_def)
  have rd: "readArray s history = map g xs"
    unfolding readArray_def xs_def [symmetric] g_def using some by (rule map_filter_all_some)
  show ?thesis
  proof (cases "xs = []")
    case True
    then show ?thesis
      using rd serveToday_empty [of s history q now] by (simp add: xs_def servedView_def)
  next
    case False
    have "last xs \<in> set xs" using False by simp
    then obtain lc where lc: "candles s (last xs) = Some lc"
      using some by fastforce
    have lastc: "last (map g xs) = lc"
      using False lc by (simp add: last_map g_def)
    define upd where "upd = (\<lambda>c. (candles s)(nextAddr s \<mapsto> c))"
    have agree: "List.map_filter (upd c) ys = map g ys" if "set ys \<subseteq> set xs" for c ys
    proof -
      have "\<forall>a \<in> set ys. upd c a = candles s a"
        using that below by (auto simp: upd_def)
      then have "List.map_filter (upd c) ys = List.map_filter (candles s) ys"
        by (rule map_filter_cong_on)
      also have "\<dots> = map g ys"
        unfolding g_def using that some by (intro map_filter_all_some) auto
      finally show ?thesis .
    qed
    note st = serveToday_nonempty [OF xs_def [symmetric] False lc, where q = q and now = now]
    show ?thesis
    proof (cases "date lc = isoDate now")
      case True
      have "xs[length xs - 1 := nextAddr s] = butlast xs @ [nextAddr s]"
        using False
        by (metis append_butlast_last_id length_butlast list_update_length)
      then have split: "xs[length xs - Suc 0 := nextAddr s] = butlast xs @ [nextAddr s]"
        by simp
      have "readArray (serveToday history q now s) history
          = List.map_filter (upd (overlayCandle lc q)) (butlast xs @ [nextAddr s])"
        using True by (simp add: st readArray_def arrayElems_def split upd_def)
      also have "\<dots> = List.map_filter (upd (overlayCandle lc q)) (butlast xs) @ [overlayCandle lc q]"
        by (simp add: List.map_filter_def upd_def)
      also have "\<dots> = map g (butlast xs) @ [overlayCandle lc q]"
        using agree [of "butlast xs"] by (simp add: in_set_butlastD subsetI)
      finally show ?thesis
        using rd False True lastc by (simp add: servedView_def map_butlast)
    next
      case F: False
      have "readArray (serveToday history q now s) history
          = List.map_filter (upd (todayCandle q now)) (xs @ [nextAddr s])"
        using F by (simp add: st readArray_def arrayElems_def upd_def)
      also have "\<dots> = List.map_filter (upd (todayCandle q now)) xs @ [todayCandle q now]"
        by (simp add: List.map_filter_def upd_def)
      also have "\<dots> = map g xs @ [todayCandle q now]"
        using agree [of xs] by simp
      finally show ?thesis
        using rd False F lastc by (simp add: servedView_def)
    qed
  qed
qed

lemma servedView_fields:
  "servedView filtered q now =
     (if filtered = [] then []
      else if date (last filtered) = isoDate now
      then butlast filtered @
           [\<lparr>date = date (last filtered), timestamp = timestamp (last filtered),
             c_open = c_open (last filtered),
             c_high = max (c_high (last filtered)) (price q),
             c_low = min (c_low (last filtered)) (price q),
             c_close = price q,
             c_volume = (if volume q = 0 then c_volume (last filtered) else volume q)\<rparr>]
      else filtered @
           [\<lparr>date = isoDate now, timestamp = now,
             c_open = (if previousClose q = 0 then price q else previousClose q),
             c_high = (if high q = 0 then price q else high q),
             c_low = (if low q = 0 then price q else low q),
             c_close = price q,
             c_volume = volume q\<rparr>])"
  by (simp add: servedView_def overlayCandle_def todayCandle_def js_or_def)

lemma serveToday_frame:
  "priceHistory (serveToday history q now s) = priceHistory s"
  "a \<noteq> history \<Longrightarrow> arrays (serveToday history q now s) a = arrays s a"
  "a \<noteq> nextAddr s \<Longrightarrow> candles (serveToday history q now s) a = candles s a"
  by (simp_all add: serveToday_def Let_def allocCandle_def arraySet_def arrayPush_def
      split: option.splits)

lemma getHistory_cases:
  fixes s now symbolParam rangeQuery
  defines "symb \<equiv> toUpperCase symbolParam"
  defines "searchSymbol \<equiv> (if str_includes symb ''.NS'' then symb else symb @ ''.NS'')"
  defines "rng \<equiv> (case rangeQuery of None \<Rightarrow> ''1y'' | Some r \<Rightarrow> r)"
  shows "getHistory s now symbolParam rangeQuery =
     (case getEither (priceHistory s) searchSymbol symb of
        None \<Rightarrow> (Inl NotFound, s)
      | Some stored \<Rightarrow>
          (let s1 = snd (arrayFilter (keepCandle (cutoffDate now rng)) stored s);
               s2 = (case getEither (simulatedPrices s) searchSymbol symb of
                       None \<Rightarrow> s1
                     | Some currentStock \<Rightarrow> serveToday (nextAddr s) currentStock now s1)
           in (Inr \<lparr>r_data = readArray s2 (nextAddr s), r_symbol = searchSymbol,
                     r_range = rng\<rparr>, s2)))"
  unfolding getHistory_def Let_def symb_def searchSymbol_def rng_def
  by (simp add: arrayFilter_def allocArray_def split: option.splits)

lemma filtered_elems:
  assumes "\<forall>a c. candles s a = Some c \<longrightarrow> a < nextAddr s"
    and "arrayFilter P stored s = (history, s1)"
  shows "\<forall>a \<in> set (arrayElems s1 history). candles s1 a \<noteq> None \<and> a < nextAddr s1"
proof
  fix a
  assume "a \<in> set (arrayElems s1 history)"
  then have "a \<in> set (filter (\<lambda>a. case candles s a of None \<Rightarrow> False | Some c \<Rightarrow> P c)
      (arrayElems s stored))"
    using readArray_filter(2) [OF assms(2)] by simp
  then obtain c where "candles s a = Some c"
    by (auto split: option.splits)
  then show "candles s1 a \<noteq> None \<and> a < nextAddr s1"
    using assms(1) readArray_filter(4,5) [OF assms(2)] by fastforce
qed

lemma getHistory_served:
  fixes s now symbolParam rangeQuery
  defines "symb \<equiv> toUpperCase symbolParam"
  defines "searchSymbol \<equiv> (if str_includes symb ''.NS'' then symb else symb @ ''.NS'')"
  defines "rng \<equiv> (case rangeQuery of None \<Rightarrow> ''1y'' | Some r \<Rightarrow> r)"
  assumes wf: "wellFormed s"
    and stored: "getEither (priceHistory s) searchSymbol symb = Some stored"
  shows "fst (getHistory s now symbolParam rangeQuery)
       = Inr \<lparr>r_data =
                (case getEither (simulatedPrices s) searchSymbol symb of
                   None \<Rightarrow> filter (keepCandle (cutoffDate now rng)) (readArray s stored)
                 | Some currentStock \<Rightarrow>
                     servedView (filter (keepCandle (cutoffDate now rng)) (readArray s stored))
                       currentStock now),
              r_symbol = searchSymbol, r_range = rng\<rparr>"
proof -
  obtain history s1 where f:
    "arrayFilter (keepCandle (cutoffDate now rng)) stored s = (history, s1)"
    by (cases "arrayFilter (keepCandle (cutoffDate now rng)) stored s")
  have h: "history = nextAddr s"
    and rd: "readArray s1 history
        = filter (keepCandle (cutoffDate now rng)) (readArray s stored)"
    using readArray_filter(1,3) [OF f] by simp_all
  have below: "\<forall>a c. candles s a = Some c \<longrightarrow> a < nextAddr s"
    using wf by (simp add: wellFormed_def)
  have el: "\<forall>a \<in> set (arrayElems s1 history). candles s1 a \<noteq> None \<and> a < nextAddr s1"
    using below f by (rule filtered_elems)
  have view: "readArray (serveToday history q now s1) history
      = servedView (filter (keepCandle (cutoffDate now rng)) (readArray s stored)) q now" for q
    using serveToday_view [OF el, of q now] rd by simp
  show ?thesis
    using stored f h rd view
    unfolding getHistory_cases symb_def [symmetric] searchSymbol_def [symmetric]
      rng_def [symmetric]
    by (simp add: Let_def split: option.splits)
qed

lemma getHistory_frame:
  "priceHistory (snd (getHistory s now symbolParam rangeQuery)) = priceHistory s"
  "a < nextAddr s \<Longrightarrow> arrays (snd (getHistory s now symbolParam rangeQuery)) a = arrays s a"
  "a < nextAddr s \<Longrightarrow> candles (snd (getHistory s now symbolParam rangeQuery)) a = candles s a"
  unfolding getHistory_cases
  by (simp_all add: Let_def serveToday_frame arrayFilter_def allocArray_def split: option.splits)

text \<open>
  C8. Serving a history query does not write the stored series. In a well-formed state
  (every reachable state is one, \<open>reachable_wellFormed\<close> below), for any symbol and any
  range, whichever branch is taken: \<^verbatim>\<open>priceHistory\<close> is the same map afterwards,
  every array and every candle object that existed before is unchanged, and so for
  every stored series the array, each of its candle objects and the candles read
  through it are what they were.
\<close>

theorem history_read_frame:
  assumes "wellFormed s"
  shows "priceHistory (snd (getHistory s now symbolParam rangeQuery)) = priceHistory s
       \<and> (\<forall>a. a < nextAddr s \<longrightarrow>
            arrays (snd (getHistory s now symbolParam rangeQuery)) a = arrays s a
            \<and> candles (snd (getHistory s now symbolParam rangeQuery)) a = candles s a)
       \<and> (\<forall>symb arr. map_of (priceHistory s) symb = Some arr \<longrightarrow>
            arrays (snd (getHistory s now symbolParam rangeQuery)) arr = arrays s arr
            \<and> (\<forall>x \<in> set (arrayElems s arr).
                  candles (snd (getHistory s now symbolParam rangeQuery)) x = candles s x)
            \<and> readArray (snd (getHistory s now symbolParam rangeQuery)) arr = readArray s arr)"
proof (intro conjI allI impI)
  show "priceHistory (snd (getHistory s now symbolParam rangeQuery)) = priceHistory s"
    by (rule getHistory_frame)
next
  fix a assume "a < nextAddr s"
  then show "arrays (snd (getHistory s now symbolParam rangeQuery)) a = arrays s a"
    "candles (snd (getHistory s now symbolParam rangeQuery)) a = candles s a"
    by (simp_all add: getHistory_frame)
next
  fix symb arr
  assume m: "map_of (priceHistory s) symb = Some arr"
  then obtain xs where xs: "arrays s arr = Some xs"
    using assms by (fastforce simp: wellFormed_def)
  then have arr: "arr < nextAddr s" and el: "\<forall>x \<in> set xs. candles s x \<noteq> None"
    using assms by (simp_all add: wellFormed_def)
  have lt: "\<forall>x \<in> set xs. x < nextAddr s"
    using el assms by (fastforce simp: wellFormed_def)
  show a: "arrays (snd (getHistory s now symbolParam rangeQuery)) arr = arrays s arr"
    using arr by (rule getHistory_frame)
  show c: "\<forall>x \<in> set (arrayElems s arr).
      candles (snd (getHistory s now symbolParam rangeQuery)) x = candles s x"
    using lt xs by (simp add: arrayElems_def getHistory_frame)
  show "readArray (snd (getHistory s now symbolParam rangeQuery)) arr = readArray s arr"
    unfolding readArray_def using a c
    by (simp add: arrayElems_def map_filter_cong_on)
qed

lemma fooState_wellFormed: "wellFormed fooState"
  by (auto simp: wellFormed_def fooState_def split: if_splits)

lemma foo_symbol: "toUpperCase ''foo'' = ''FOO''" "str_includes ''FOO'' ''.NS'' = False"
  by code_simp+

lemma foo_read: "readArray fooState 1 = [fridayCandle]"
  by (simp add: readArray_def arrayElems_def fooState_def)

theorem history_read_frame_witness:
  "map_of (priceHistory fooState) ''FOO.NS'' = Some 1
   \<and> priceHistory (snd (getHistory fooState mondayMorning ''foo'' (Some ''1y''))) = [(''FOO.NS'', 1)]
   \<and> arrays (snd (getHistory fooState mondayMorning ''foo'' (Some ''1y''))) 1 = Some [0]
   \<and> candles (snd (getHistory fooState mondayMorning ''foo'' (Some ''1y''))) 0 = Some fridayCandle
   \<and> readArray (snd (getHistory fooState mondayMorning ''foo'' (Some ''1y''))) 1 = [fridayCandle]"
proof -
  have m: "map_of (priceHistory fooState) ''FOO.NS'' = Some 1"
    and p: "priceHistory fooState = [(''FOO.NS'', 1)]"
    and a: "arrays fooState 1 = Some [0]" and e: "arrayElems fooState 1 = [0]"
    and c: "candles fooState 0 = Some fridayCandle"
    by (simp_all add: fooState_def arrayElems_def)
  show ?thesis
    using history_read_frame [OF fooState_wellFormed, of mondayMorning "''foo''" "Some ''1y''"]
      m p a e c foo_read
    by (metis insertI1 list.simps(15))
qed

text \<open>
  C4 (amended). For a history query on a symbol whose stored series exists, in a
  well-formed state where the symbol has a live quote (as every reachable state is and
  has, \<open>reachable_wellFormed\<close> and \<open>reachable_quote_exists\<close> below): if the range filter
  leaves no candle, the served series is empty and nothing is appended. Otherwise, if
  the last filtered candle is dated today, the served series is the filtered one with
  its last candle replaced by a copy that has \<open>close\<close> set to the live price, \<open>high\<close> to
  the larger of the candle's high and the live price, \<open>low\<close> to the smaller of the
  candle's low and the live price, \<open>volume\<close> to the live volume (the candle's volume
  when the live volume is 0), and its date, timestamp and \<open>open\<close> as they were. If the
  last filtered candle is not dated today, the served series is the filtered one
  followed by a candle with today's date, the current time as timestamp, \<open>open\<close> the
  quote's previous close, \<open>high\<close> the quote's high, \<open>low\<close> the quote's low (each of
  the three replaced by the live price when it is 0), \<open>close\<close> the live price and
  \<open>volume\<close> the live volume. In every case the stored map and the stored series read
  through it are what they were.
\<close>

theorem served_history:
  fixes s now symbolParam rangeQuery
  defines "symb \<equiv> toUpperCase symbolParam"
  defines "searchSymbol \<equiv> (if str_includes symb ''.NS'' then symb else symb @ ''.NS'')"
  defines "rng \<equiv> (case rangeQuery of None \<Rightarrow> ''1y'' | Some r \<Rightarrow> r)"
  assumes "wellFormed s"
    and "getEither (priceHistory s) searchSymbol symb = Some stored"
    and "getEither (simulatedPrices s) searchSymbol symb = Some q"
    and "filtered = filter (keepCandle (cutoffDate now rng)) (readArray s stored)"
  shows "fst (getHistory s now symbolParam rangeQuery)
       = Inr \<lparr>r_data =
                (if filtered = [] then []
                 else if date (last filtered) = isoDate now
                 then butlast filtered @
                      [\<lparr>date = date (last filtered), timestamp = timestamp (last filtered),
                        c_open = c_open (last filtered),
                        c_high = max (c_high (last filtered)) (price q),
                        c_low = min (c_low (last filtered)) (price q),
                        c_close = price q,
                        c_volume = (if volume q = 0 then c_volume (last filtered)
                                    else volume q)\<rparr>]
                 else filtered @
                      [\<lparr>date = isoDate now, timestamp = now,
                        c_open = (if previousClose q = 0 then price q else previousClose q),
                        c_high = (if high q = 0 then price q else high q),
                        c_low = (if low q = 0 then price q else low q),
                        c_close = price q,
                        c_volume = volume q\<rparr>]),
              r_symbol = searchSymbol, r_range = rng\<rparr>
       \<and> priceHistory (snd (getHistory s now symbolParam rangeQuery)) = priceHistory s
       \<and> readArray (snd (getHistory s now symbolParam rangeQuery)) stored = readArray s stored"
proof -
  have served: "fst (getHistory s now symbolParam rangeQuery)
       = Inr \<lparr>r_data = servedView filtered q now, r_symbol = searchSymbol, r_range = rng\<rparr>"
    using getHistory_served [OF assms(4), of symbolParam stored now rangeQuery] assms(5-7)
    unfolding symb_def searchSymbol_def rng_def
    by simp
  have ph: "priceHistory (snd (getHistory s now symbolParam rangeQuery)) = priceHistory s"
    by (rule getHistory_frame)
  obtain key where key: "map_of (priceHistory s) key = Some stored"
    using assms(5) by (auto simp: getEither_def split: option.splits)
  then obtain xs where xs: "arrays s stored = Some xs"
    using assms(4) by (fastforce simp: wellFormed_def)
  then have arr: "stored < nextAddr s" and el: "\<forall>x \<in> set xs. candles s x \<noteq> None"
    using assms(4) by (simp_all add: wellFormed_def)
  have lt: "\<forall>x \<in> set xs. x < nextAddr s"
    using el assms(4) by (fastforce simp: wellFormed_def)
  have a: "arrays (snd (getHistory s now symbolParam rangeQuery)) stored = arrays s stored"
    using arr by (rule getHistory_frame)
  have c: "\<forall>x \<in> set xs. candles (snd (getHistory s now symbolParam rangeQuery)) x = candles s x"
    using lt by (simp add: getHistory_frame)
  have rd: "readArray (snd (getHistory s now symbolParam rangeQuery)) stored = readArray s stored"
    unfolding readArray_def using a c xs
    by (simp add: arrayElems_def map_filter_cong_on)
  show ?thesis
    using served ph rd by (simp add: servedView_fields)
qed

lemma foo_lookup:
  "getEither (priceHistory fooState) ''FOO.NS'' ''FOO'' = Some 1"
  "getEither (simulatedPrices fooState) ''FOO.NS'' ''FOO'' = Some fooQuote"
  by (simp_all add: getEither_def fooState_def)

lemma foo_read_Suc: "readArray fooState (Suc 0) = [fridayCandle]"
  using foo_read by simp

lemma foo_cutoffs:
  "cutoffDate mondayMorning ''1y'' = Some 1738476000000"
  "cutoffDate mondayMorning ''1d'' = Some 1769925600000"
  "cutoffDate mondayMorning ''bogus'' = Some 1738476000000"
  "cutoffDate mondayMorning ''toString'' = None"
  by (simp_all add: cutoffDate_def daysToInclude_def rangesLookup_def ranges_def
      objectPrototypeKeys_def mondayMorning_def)

lemma foo_served:
  "fst (getHistory fooState mondayMorning ''foo'' (Some r))
     = Inr \<lparr>r_data = servedView (filter (keepCandle (cutoffDate mondayMorning r)) [fridayCandle])
                        fooQuote mondayMorning,
            r_symbol = ''FOO.NS'', r_range = r\<rparr>"
  using getHistory_served [OF fooState_wellFormed, of "''foo''" 1 mondayMorning "Some r"]
  by (simp add: foo_symbol foo_lookup foo_read_Suc)

lemma mondayState_wellFormed: "wellFormed mondayState"
  by (auto simp: wellFormed_def mondayState_def split: if_splits)

lemma monday_lookup:
  "getEither (priceHistory mondayState) ''FOO.NS'' ''FOO'' = Some 2"
  "getEither (simulatedPrices mondayState) ''FOO.NS'' ''FOO'' = Some fooQuote"
  by (simp_all add: getEither_def mondayState_def)

lemma monday_read: "readArray mondayState 2 = [fridayCandle, mondayCandle]"
  by (simp add: readArray_def arrayElems_def mondayState_def List.map_filter_def)

lemma monday_filtered:
  "filter (keepCandle (cutoffDate mondayMorning ''1y'')) (readArray mondayState 2)
     = [fridayCandle, mondayCandle]"
  by (simp add: monday_read foo_cutoffs keepCandle_def fridayCandle_def mondayCandle_def)

lemma foo_filtered:
  "filter (keepCandle (cutoffDate mondayMorning ''1y'')) (readArray fooState 1) = [fridayCandle]"
  "filter (keepCandle (cutoffDate mondayMorning ''1d'')) (readArray fooState 1) = []"
  by (simp_all add: foo_cutoffs foo_read_Suc keepCandle_def fridayCandle_def)

lemma today_is_monday: "isoDate mondayMorning = 20486"
  by (simp add: isoDate_def mondayMorning_def msPerDay_def)

text \<open>
  On Monday the range \<open>1d\<close> filters Friday's candle out. The stored series and the
  live quote exist; the handler serves an empty series, which does not end with a
  candle dated today as the claim has it.
\<close>

theorem served_history_counterexample:
  "getEither (priceHistory fooState) ''FOO.NS'' ''FOO'' = Some 1
   \<and> getEither (simulatedPrices fooState) ''FOO.NS'' ''FOO'' = Some fooQuote
   \<and> filter (keepCandle (cutoffDate mondayMorning ''1d'')) (readArray fooState 1) = []
   \<and> fst (getHistory fooState mondayMorning ''foo'' (Some ''1d''))
       = Inr \<lparr>r_data = [], r_symbol = ''FOO.NS'', r_range = ''1d''\<rparr>
   \<and> \<not> claimedServed [] mondayMorning []"
proof -
  have served: "fst (getHistory fooState mondayMorning ''foo'' (Some ''1d''))
       = Inr \<lparr>r_data = [], r_symbol = ''FOO.NS'', r_range = ''1d''\<rparr>"
    by (simp add: foo_served foo_cutoffs keepCandle_def servedView_def fridayCandle_def)
  have claimed: "\<not> claimedServed [] mondayMorning []"
    by (simp add: claimedServed_def)
  show ?thesis
    by (intro conjI foo_lookup foo_filtered(2) served claimed)
qed

text \<open>
  The three cases on Monday morning: a series whose last candle is Monday's is served
  with that candle overlaid (close 100 for 98.5, high 100 for 99.5, low 98 kept,
  volume 6000000 for 1000); a series that ends on Friday is served with a candle for
  Monday appended; and under the range \<open>1d\<close> that series is served empty.
\<close>

theorem served_history_witness:
  "getEither (priceHistory mondayState) ''FOO.NS'' ''FOO'' = Some 2
   \<and> getEither (simulatedPrices mondayState) ''FOO.NS'' ''FOO'' = Some fooQuote
   \<and> filter (keepCandle (cutoffDate mondayMorning ''1y'')) (readArray mondayState 2)
       = [fridayCandle, mondayCandle]
   \<and> date mondayCandle = isoDate mondayMorning
   \<and> fst (getHistory mondayState mondayMorning ''foo'' (Some ''1y''))
       = Inr \<lparr>r_data =
                [fridayCandle,
                 \<lparr>date = 20486, timestamp = 1769994000000, c_open = 99, c_high = 100,
                  c_low = 98, c_close = 100, c_volume = 6000000\<rparr>],
              r_symbol = ''FOO.NS'', r_range = ''1y''\<rparr>
   \<and> readArray (snd (getHistory mondayState mondayMorning ''foo'' (Some ''1y''))) 2
       = [fridayCandle, mondayCandle]
   \<and> getEither (priceHistory fooState) ''FOO.NS'' ''FOO'' = Some 1
   \<and> getEither (simulatedPrices fooState) ''FOO.NS'' ''FOO'' = Some fooQuote
   \<and> filter (keepCandle (cutoffDate mondayMorning ''1y'')) (readArray fooState 1)
       = [fridayCandle]
   \<and> date fridayCandle \<noteq> isoDate mondayMorning
   \<and> fst (getHistory fooState mondayMorning ''foo'' (Some ''1y''))
       = Inr \<lparr>r_data =
                [fridayCandle,
                 \<lparr>date = 20486, timestamp = 1770012000000, c_open = 100, c_high = 101,
                  c_low = 99, c_close = 100, c_volume = 6000000\<rparr>],
              r_symbol = ''FOO.NS'', r_range = ''1y''\<rparr>
   \<and> readArray (snd (getHistory fooState mondayMorning ''foo'' (Some ''1y''))) 1
       = [fridayCandle]
   \<and> filter (keepCandle (cutoffDate mondayMorning ''1d'')) (readArray fooState 1) = []
   \<and> fst (getHistory fooState mondayMorning ''foo'' (Some ''1d''))
       = Inr \<lparr>r_data = [], r_symbol = ''FOO.NS'', r_range = ''1d''\<rparr>"
proof -
  have f1: "[fridayCandle, mondayCandle]
      = filter (keepCandle (cutoffDate mondayMorning ''1y'')) (readArray mondayState 2)"
    by (rule monday_filtered [symmetric])
  have f2: "[fridayCandle]
      = filter (keepCandle (cutoffDate mondayMorning ''1y'')) (readArray fooState 1)"
    by (rule foo_filtered(1) [symmetric])
  have f3: "[] = filter (keepCandle (cutoffDate mondayMorning ''1d'')) (readArray fooState 1)"
    by (rule foo_filtered(2) [symmetric])
  have d1: "date mondayCandle = isoDate mondayMorning"
    by (simp add: mondayCandle_def today_is_monday)
  have d2: "date fridayCandle \<noteq> isoDate mondayMorning"
    by (simp add: fridayCandle_def today_is_monday)
  have s1: "getEither (priceHistory mondayState)
        (if str_includes (toUpperCase ''foo'') ''.NS'' then toUpperCase ''foo''
         else toUpperCase ''foo'' @ ''.NS'') (toUpperCase ''foo'') = Some 2"
    and q1: "getEither (simulatedPrices mondayState)
        (if str_includes (toUpperCase ''foo'') ''.NS'' then toUpperCase ''foo''
         else toUpperCase ''foo'' @ ''.NS'') (toUpperCase ''foo'') = Some fooQuote"
    by (simp_all add: foo_symbol monday_lookup)
  have s2: "getEither (priceHistory fooState)
        (if str_includes (toUpperCase ''foo'') ''.NS'' then toUpperCase ''foo''
         else toUpperCase ''foo'' @ ''.NS'') (toUpperCase ''foo'') = Some 1"
    and q2: "getEither (simulatedPrices fooState)
        (if str_includes (toUpperCase ''foo'') ''.NS'' then toUpperCase ''foo''
         else toUpperCase ''foo'' @ ''.NS'') (toUpperCase ''foo'') = Some fooQuote"
    by (simp_all add: foo_symbol foo_lookup)
  have g1: "[fridayCandle, mondayCandle]
      = filter (keepCandle (cutoffDate mondayMorning
          (case Some ''1y'' of None \<Rightarrow> ''1y'' | Some r \<Rightarrow> r))) (readArray mondayState 2)"
    using f1 by simp
  have g2: "[fridayCandle]
      = filter (keepCandle (cutoffDate mondayMorning
          (case Some ''1y'' of None \<Rightarrow> ''1y'' | Some r \<Rightarrow> r))) (readArray fooState 1)"
    using f2 by simp
  have g3: "[]
      = filter (keepCandle (cutoffDate mondayMorning
          (case Some ''1d'' of None \<Rightarrow> ''1y'' | Some r \<Rightarrow> r))) (readArray fooState 1)"
    using f3 by simp
  note overlay = served_history [OF mondayState_wellFormed s1 q1 g1]
  note append = served_history [OF fooState_wellFormed s2 q2 g2]
  note none = served_history [OF fooState_wellFormed s2 q2 g3]
  have o: "fst (getHistory mondayState mondayMorning ''foo'' (Some ''1y''))
       = Inr \<lparr>r_data = [fridayCandle,
                 \<lparr>date = date mondayCandle, timestamp = timestamp mondayCandle,
                  c_open = c_open mondayCandle,
                  c_high = max (c_high mondayCandle) (price fooQuote),
                  c_low = min (c_low mondayCandle) (price fooQuote),
                  c_close = price fooQuote,
                  c_volume = (if volume fooQuote = 0 then c_volume mondayCandle
                              else volume fooQuote)\<rparr>],
              r_symbol = ''FOO.NS'', r_range = ''1y''\<rparr>
     \<and> readArray (snd (getHistory mondayState mondayMorning ''foo'' (Some ''1y''))) 2
       = readArray mondayState 2"
    using overlay d1 by (simp add: foo_symbol)
  have a: "fst (getHistory fooState mondayMorning ''foo'' (Some ''1y''))
       = Inr \<lparr>r_data = [fridayCandle,
                 \<lparr>date = isoDate mondayMorning, timestamp = mondayMorning,
                  c_open = (if previousClose fooQuote = 0 then price fooQuote
                            else previousClose fooQuote),
                  c_high = (if high fooQuote = 0 then price fooQuote else high fooQuote),
                  c_low = (if low fooQuote = 0 then price fooQuote else low fooQuote),
                  c_close = price fooQuote,
                  c_volume = volume fooQuote\<rparr>],
              r_symbol = ''FOO.NS'', r_range = ''1y''\<rparr>
     \<and> readArray (snd (getHistory fooState mondayMorning ''foo'' (Some ''1y''))) 1
       = readArray fooState 1"
    using append d2 by (simp add: foo_symbol)
  have n: "fst (getHistory fooState mondayMorning ''foo'' (Some ''1d''))
       = Inr \<lparr>r_data = [], r_symbol = ''FOO.NS'', r_range = ''1d''\<rparr>"
    using none by (simp add: foo_symbol)
  have o': "fst (getHistory mondayState mondayMorning ''foo'' (Some ''1y''))
       = Inr \<lparr>r_data =
                [fridayCandle,
                 \<lparr>date = 20486, timestamp = 1769994000000, c_open = 99, c_high = 100,
                  c_low = 98, c_close = 100, c_volume = 6000000\<rparr>],
              r_symbol = ''FOO.NS'', r_range = ''1y''\<rparr>"
    using o by (simp add: mondayCandle_def fooQuote_def)
  have o'': "readArray (snd (getHistory mondayState mondayMorning ''foo'' (Some ''1y''))) 2
       = [fridayCandle, mondayCandle]"
    using o monday_read by simp
  have a': "fst (getHistory fooState mondayMorning ''foo'' (Some ''1y''))
       = Inr \<lparr>r_data =
                [fridayCandle,
                 \<lparr>date = 20486, timestamp = 1770012000000, c_open = 100, c_high = 101,
                  c_low = 99, c_close = 100, c_volume = 6000000\<rparr>],
              r_symbol = ''FOO.NS'', r_range = ''1y''\<rparr>"
    using a unfolding today_is_monday by (simp add: fooQuote_def mondayMorning_def)
  have a'': "readArray (snd (getHistory fooState mondayMorning ''foo'' (Some ''1y''))) 1
       = [fridayCandle]"
    using a foo_read by simp
  show ?thesis
    by (intro conjI monday_lookup foo_lookup monday_filtered foo_filtered d1 d2 o' o'' a' a'' n)
qed


text \<open>
  A range that is neither one of the six keys nor an inherited property name gets the
  cutoff of 365 days; an inherited property name gets NaN.
\<close>

lemma cutoffDate_default:
  assumes "r \<notin> set (map fst ranges)" and "r \<notin> set objectPrototypeKeys"
  shows "cutoffDate now r = Some (now - 365 * msPerDay)"
proof -
  have "map_of ranges r = None"
    using assms(1) by (simp add: map_of_eq_None_iff)
  then show ?thesis
    using assms(2) by (simp add: cutoffDate_def daysToInclude_def rangesLookup_def msPerDay_def)
qed

lemma cutoffDate_inherited:
  assumes "r \<in> set objectPrototypeKeys"
  shows "cutoffDate now r = None"
proof -
  have "map_of ranges r = None"
    using assms by (auto simp: ranges_def objectPrototypeKeys_def)
  then show ?thesis
    using assms by (simp add: cutoffDate_def daysToInclude_def rangesLookup_def)
qed

text \<open>
  C10. A range outside the six keys is not always treated as 365 days. The range
  \<open>toString\<close> names a property that the object \<^verbatim>\<open>ranges\<close> inherits: the lookup gives a
  function, \<^verbatim>\<open>|| 365\<close> keeps it, the cutoff is NaN, and the filter drops every
  candle, among them Friday's, which is three days old. The range \<open>bogus\<close> is treated as
  365 days and serves it.
\<close>

theorem inherited_range_serves_nothing:
  "readArray fooState 1 = [fridayCandle]
   \<and> mondayMorning - 365 * msPerDay \<le> timestamp fridayCandle
   \<and> fst (getHistory fooState mondayMorning ''foo'' (Some ''bogus''))
       = Inr \<lparr>r_data = [fridayCandle, todayCandle fooQuote mondayMorning],
              r_symbol = ''FOO.NS'', r_range = ''bogus''\<rparr>
   \<and> fst (getHistory fooState mondayMorning ''foo'' (Some ''toString''))
       = Inr \<lparr>r_data = [], r_symbol = ''FOO.NS'', r_range = ''toString''\<rparr>"
proof -
  have d: "date fridayCandle \<noteq> isoDate mondayMorning"
    by (simp add: fridayCandle_def isoDate_def mondayMorning_def msPerDay_def)
  have t: "mondayMorning - 365 * msPerDay \<le> timestamp fridayCandle"
    by (simp add: fridayCandle_def mondayMorning_def msPerDay_def)
  show ?thesis
    using d t
    by (simp add: foo_served foo_cutoffs foo_read_Suc keepCandle_def servedView_def)
      (simp add: fridayCandle_def)
qed

section \<open>Reachable states are well-formed\<close>

lemma wellFormed_quotes [simp]:
  "wellFormed (s\<lparr>simulatedPrices := q\<rparr>) = wellFormed s"
  by (simp add: wellFormed_def)

lemma emptyState_wellFormed: "wellFormed emptyState"
  by (simp add: wellFormed_def emptyState_def)

lemma allocCandle_wellFormed:
  assumes "wellFormed s" and "allocCandle c s = (a, s')"
  shows "wellFormed s'" and "candles s' a \<noteq> None" and "arrays s' = arrays s"
    and "priceHistory s' = priceHistory s"
    and "\<forall>x. candles s x \<noteq> None \<longrightarrow> candles s' x \<noteq> None"
proof -
  have s': "s' = s\<lparr>candles := (candles s)(nextAddr s \<mapsto> c), nextAddr := nextAddr s + 1\<rparr>"
    and a: "a = nextAddr s"
    using assms(2) by (auto simp: allocCandle_def)
  show "wellFormed s'"
    using assms(1) unfolding wellFormed_def s'
    by (auto simp: less_Suc_eq split: if_splits)
  show "candles s' a \<noteq> None" "arrays s' = arrays s" "priceHistory s' = priceHistory s"
    "\<forall>x. candles s x \<noteq> None \<longrightarrow> candles s' x \<noteq> None"
    by (simp_all add: s' a)
qed

lemma allocCandles_wellFormed:
  assumes "wellFormed s" and "allocCandles cs s = (as, s')"
  shows "wellFormed s' \<and> (\<forall>a \<in> set as. candles s' a \<noteq> None) \<and> arrays s' = arrays s
       \<and> priceHistory s' = priceHistory s
       \<and> (\<forall>x. candles s x \<noteq> None \<longrightarrow> candles s' x \<noteq> None)"
  using assms
proof (induction cs arbitrary: s as s')
  case Nil
  then show ?case by simp
next
  case (Cons c cs)
  obtain a s1 where a: "allocCandle c s = (a, s1)"
    by (cases "allocCandle c s")
  obtain bs s2 where b: "allocCandles cs s1 = (bs, s2)"
    by (cases "allocCandles cs s1")
  have eq: "as = a # bs" "s' = s2"
    using Cons.prems(2) a b by simp_all
  note one = allocCandle_wellFormed [OF Cons.prems(1) a]
  note rest = Cons.IH [OF one(1) b]
  show ?case
    unfolding eq using one rest by auto
qed

lemma allocArray_wellFormed:
  assumes "wellFormed s" and "\<forall>a \<in> set xs. candles s a \<noteq> None" and "allocArray xs s = (arr, s')"
  shows "wellFormed s'" and "arrays s' arr \<noteq> None" and "priceHistory s' = priceHistory s"
proof -
  have s': "s' = s\<lparr>arrays := (arrays s)(nextAddr s \<mapsto> xs), nextAddr := nextAddr s + 1\<rparr>"
    and arr: "arr = nextAddr s"
    using assms(3) by (auto simp: allocArray_def)
  show "wellFormed s'"
    using assms(1,2) unfolding wellFormed_def s'
    by (auto simp: less_Suc_eq split: if_splits)
  show "arrays s' arr \<noteq> None" "priceHistory s' = priceHistory s"
    by (simp_all add: s' arr)
qed

lemma allocHistory_wellFormed:
  assumes "wellFormed s" and "allocHistory cs s = (arr, s')"
  shows "wellFormed s'" and "arrays s' arr \<noteq> None" and "priceHistory s' = priceHistory s"
proof -
  obtain as s1 where a: "allocCandles cs s = (as, s1)"
    by (cases "allocCandles cs s")
  have b: "allocArray as s1 = (arr, s')"
    using assms(2) a by (simp add: allocHistory_def)
  note one = allocCandles_wellFormed [OF assms(1) a]
  have wf1: "wellFormed s1" and el: "\<forall>a \<in> set as. candles s1 a \<noteq> None"
    and ph: "priceHistory s1 = priceHistory s"
    using one by simp_all
  show "wellFormed s'" "arrays s' arr \<noteq> None"
    using allocArray_wellFormed(1,2) [OF wf1 el b] by simp_all
  show "priceHistory s' = priceHistory s"
    using allocArray_wellFormed(3) [OF wf1 el b] ph by simp
qed

lemma initEntry_wellFormed:
  assumes "wellFormed (fst acc)"
  shows "wellFormed (fst (initEntry stocks now tz rnd x acc))"
proof -
  define s1 where
    "s1 = (fst acc)\<lparr>simulatedPrices :=
       AList.update (fst x) (initialQuote stocks now rnd (snd acc) (fst x) (snd x))
         (simulatedPrices (fst acc))\<rparr>"
  obtain cs k' where g:
    "generateHistoricalData stocks (basePrice (snd x)) (fst x) 365 now tz rnd (snd acc + 7) = (cs, k')"
    by (cases "generateHistoricalData stocks (basePrice (snd x)) (fst x) 365 now tz rnd (snd acc + 7)")
  obtain arr s2 where h: "allocHistory cs s1 = (arr, s2)"
    by (cases "allocHistory cs s1")
  have wf1: "wellFormed s1"
    using assms by (simp add: s1_def)
  note al = allocHistory_wellFormed [OF wf1 h]
  have res: "fst (initEntry stocks now tz rnd x acc)
      = s2\<lparr>priceHistory := AList.update (fst x) arr (priceHistory s2)\<rparr>"
    using g h by (simp add: initEntry_def Let_def s1_def [symmetric])
  have "\<forall>symb a. map_of (AList.update (fst x) arr (priceHistory s2)) symb = Some a
      \<longrightarrow> arrays s2 a \<noteq> None"
    using al(1,2) by (auto simp: update_conv' wellFormed_def split: if_splits)
  then show ?thesis
    unfolding res using al(1) by (simp add: wellFormed_def)
qed

lemma init_wellFormed:
  assumes "wellFormed s"
  shows "wellFormed (fst (initializeSimulatedPrices stocks indices now tz rnd (s, k)))"
proof -
  have "wellFormed (fst (fold (initEntry stocks now tz rnd) es acc))" if "wellFormed (fst acc)"
    for es acc
    using that by (induction es arbitrary: acc) (simp_all add: initEntry_wellFormed)
  then show ?thesis
    using assms by (simp add: initializeSimulatedPrices_def)
qed

lemma arrayFilter_wellFormed:
  assumes "wellFormed s" and "arrayFilter P stored s = (history, s1)"
  shows "wellFormed s1" and "arrays s1 history \<noteq> None"
proof -
  define kept where
    "kept = filter (\<lambda>a. case candles s a of None \<Rightarrow> False | Some c \<Rightarrow> P c) (arrayElems s stored)"
  have el: "\<forall>a \<in> set kept. candles s a \<noteq> None"
    by (auto simp: kept_def split: option.splits)
  have al: "allocArray kept s = (history, s1)"
    using assms(2) by (simp add: arrayFilter_def kept_def)
  show "wellFormed s1" "arrays s1 history \<noteq> None"
    using allocArray_wellFormed(1,2) [OF assms(1) el al] by simp_all
qed

lemma serveToday_wellFormed:
  assumes wf: "wellFormed s"
  shows "wellFormed (serveToday history q now s)"
proof (cases "arrayElems s history = []")
  case True
  then show ?thesis using wf by (simp add: serveToday_empty)
next
  case False
  define xs where "xs = arrayElems s history"
  have arr: "arrays s history = Some xs"
    using False by (auto simp: xs_def arrayElems_def split: option.splits)
  have el: "\<forall>x \<in> set xs. candles s x \<noteq> None" and hist: "history < nextAddr s"
    using wf arr by (simp_all add: wellFormed_def)
  have "last xs \<in> set xs" using False by (simp add: xs_def)
  then obtain lc where lc: "candles s (last xs) = Some lc"
    using el by fastforce
  have nonempty: "xs \<noteq> []" using False by (simp add: xs_def)
  note st = serveToday_nonempty [OF xs_def [symmetric] nonempty lc, where q = q and now = now]
  have set_upd: "set (xs[length xs - 1 := nextAddr s]) \<subseteq> insert (nextAddr s) (set xs)"
    by (rule set_update_subset_insert)
  show ?thesis
  proof (cases "date lc = isoDate now")
    case True
    show ?thesis
      unfolding st using True wf el hist set_upd
      by (auto simp: wellFormed_def less_Suc_eq split: if_splits)
  next
    case F: False
    show ?thesis
      unfolding st using F wf el hist
      by (auto simp: wellFormed_def less_Suc_eq split: if_splits)
  qed
qed

lemma getHistory_wellFormed:
  assumes "wellFormed s"
  shows "wellFormed (snd (getHistory s now symbolParam rangeQuery))"
proof -
  define symb where "symb = toUpperCase symbolParam"
  define searchSymbol where
    "searchSymbol = (if str_includes symb ''.NS'' then symb else symb @ ''.NS'')"
  define r where "r = (case rangeQuery of None \<Rightarrow> ''1y'' | Some r \<Rightarrow> r)"
  note cases = getHistory_cases [of s now symbolParam rangeQuery,
      folded symb_def, folded searchSymbol_def, folded r_def]
  show ?thesis
  proof (cases "getEither (priceHistory s) searchSymbol symb")
    case None
    then show ?thesis using assms by (simp add: cases)
  next
    case (Some stored)
    obtain history s1 where f: "arrayFilter (keepCandle (cutoffDate now r)) stored s = (history, s1)"
      by (cases "arrayFilter (keepCandle (cutoffDate now r)) stored s")
    have wf1: "wellFormed s1"
      using assms f by (rule arrayFilter_wellFormed)
    show ?thesis
      using Some f wf1 serveToday_wellFormed [OF wf1]
      by (simp add: cases Let_def split: option.splits)
  qed
qed

text \<open>Every reachable state is well-formed.\<close>

lemma reachable_wellFormed:
  assumes "reachable stocks indices s"
  shows "wellFormed s"
  using assms
proof (induction rule: reachable.induct)
  case (start rnd now tz k)
  show ?case
    using emptyState_wellFormed by (rule init_wellFormed)
next
  case (reset s rnd now tz k)
  then show ?case
    unfolding resetSimulation_def by (intro init_wellFormed)
next
  case (tick s rnd st now k)
  then show ?case by simp
next
  case (history s now symbolParam rangeQuery)
  then show ?case by (intro getHistory_wellFormed)
qed

section \<open>Reachable states have a quote for every stored series\<close>

lemma updateOne_keys:
  assumes "fst entry \<in> set (map fst (fst acc))"
  shows "map fst (fst (updateOne stocks st now rnd entry acc)) = map fst (fst acc)"
  using assms by (simp add: updateOne_def Let_def update_keys)

lemma fold_updateOne_keys:
  assumes "\<forall>e \<in> set es. fst e \<in> set (map fst (fst acc))"
  shows "map fst (fst (fold (updateOne stocks st now rnd) es acc)) = map fst (fst acc)"
  using assms
proof (induction es arbitrary: acc)
  case Nil
  then show ?case by simp
next
  case (Cons x es)
  have one: "map fst (fst (updateOne stocks st now rnd x acc)) = map fst (fst acc)"
    using Cons.prems by (intro updateOne_keys) simp
  then have "\<forall>e \<in> set es. fst e \<in> set (map fst (fst (updateOne stocks st now rnd x acc)))"
    using Cons.prems by simp
  then show ?case
    using Cons.IH [of "updateOne stocks st now rnd x acc"] one by simp
qed

lemma tick_keys:
  "map fst (fst (updateSimulatedPrices stocks st now rnd (store, k))) = map fst store"
  using fold_updateOne_keys [of store "(store, k)" stocks st now rnd]
  by (simp add: updateSimulatedPrices_def Let_def)

lemma initEntry_history:
  "map fst (priceHistory (fst (initEntry stocks now tz rnd x acc)))
     = map fst (AList.update (fst x) (0 :: nat) (priceHistory (fst acc)))"
proof -
  define s1 where
    "s1 = (fst acc)\<lparr>simulatedPrices :=
       AList.update (fst x) (initialQuote stocks now rnd (snd acc) (fst x) (snd x))
         (simulatedPrices (fst acc))\<rparr>"
  obtain cs k' where g:
    "generateHistoricalData stocks (basePrice (snd x)) (fst x) 365 now tz rnd (snd acc + 7) = (cs, k')"
    by (cases "generateHistoricalData stocks (basePrice (snd x)) (fst x) 365 now tz rnd (snd acc + 7)")
  obtain arr s2 where h: "allocHistory cs s1 = (arr, s2)"
    by (cases "allocHistory cs s1")
  obtain as s' where a: "allocCandles cs s1 = (as, s')"
    by (cases "allocCandles cs s1")
  have "priceHistory s' = priceHistory s1"
    using a by (induction cs arbitrary: s1 as s')
      (auto simp: allocCandle_def split: prod.splits)
  then have "priceHistory s2 = priceHistory (fst acc)"
    using h a by (auto simp: allocHistory_def allocArray_def s1_def)
  then show ?thesis
    using g h by (simp add: initEntry_def Let_def s1_def [symmetric] update_keys)
qed

lemma init_same_keys:
  assumes "map fst (priceHistory s) = map fst (simulatedPrices s)"
  shows "map fst (priceHistory (fst (initializeSimulatedPrices stocks indices now tz rnd (s, k))))
       = map fst (simulatedPrices (fst (initializeSimulatedPrices stocks indices now tz rnd (s, k))))"
proof -
  have "map fst (priceHistory (fst (fold (initEntry stocks now tz rnd) es acc)))
      = map fst (simulatedPrices (fst (fold (initEntry stocks now tz rnd) es acc)))"
    if "map fst (priceHistory (fst acc)) = map fst (simulatedPrices (fst acc))" for es acc
    using that
  proof (induction es arbitrary: acc)
    case Nil
    then show ?case by simp
  next
    case (Cons x es)
    have "map fst (priceHistory (fst (initEntry stocks now tz rnd x acc)))
        = map fst (simulatedPrices (fst (initEntry stocks now tz rnd x acc)))"
      using Cons.prems by (simp add: initEntry_history initEntry_quotes' update_keys)
    then show ?case
      using Cons.IH [of "initEntry stocks now tz rnd x acc"] by simp
  qed
  then show ?thesis
    using assms by (simp add: initializeSimulatedPrices_def)
qed

text \<open>
  In a reachable state the two maps have the same keys, so a symbol with a stored
  series has a live quote.
\<close>

lemma reachable_same_keys:
  assumes "reachable stocks indices s"
  shows "map fst (priceHistory s) = map fst (simulatedPrices s)"
  using assms
proof (induction rule: reachable.induct)
  case (start rnd now tz k)
  show ?case by (rule init_same_keys) (simp add: emptyState_def)
next
  case (reset s rnd now tz k)
  then show ?case
    unfolding resetSimulation_def by (intro init_same_keys)
next
  case (tick s rnd st now k)
  then show ?case by (simp add: tick_keys)
next
  case (history s now symbolParam rangeQuery)
  then show ?case by (simp add: getHistory_frame)
qed

lemma reachable_quote_exists:
  assumes "reachable stocks indices s" and "getEither (priceHistory s) a b = Some stored"
  shows "getEither (simulatedPrices s) a b \<noteq> None"
proof -
  have keys: "map fst (priceHistory s) = map fst (simulatedPrices s)"
    using assms(1) by (rule reachable_same_keys)
  have same: "map_of (simulatedPrices s) x \<noteq> None" if "map_of (priceHistory s) x \<noteq> None" for x
    using keys that by (metis map_of_eq_None_iff set_map)
  show ?thesis
  proof (cases "map_of (priceHistory s) a")
    case None
    then have "map_of (priceHistory s) b \<noteq> None"
      using assms(2) by (simp add: getEither_def)
    then have "map_of (simulatedPrices s) b \<noteq> None"
      by (rule same)
    then show ?thesis
      by (auto simp: getEither_def split: option.splits)
  next
    case (Some v)
    then have "map_of (simulatedPrices s) a \<noteq> None"
      by (intro same) simp
    then show ?thesis
      by (auto simp: getEither_def split: option.splits)
  qed
qed

end
